theory Spec2Isabelle
  imports Complex_Main
begin

section \<open>JavaScript primitives used by the record code\<close>

text \<open>
  Strings are \<open>string\<close>; JavaScript numbers that hold sequence numbers are \<open>int\<close>
  (exact below \<open>2^53\<close>, which is where the doubles of the source stop being exact),
  and \<open>NaN\<close> is \<open>None\<close>.
\<close>

definition isWhiteSpace :: "char \<Rightarrow> bool" where
  "isWhiteSpace c = (c \<in> set [CHR '' '', CHR 0x09, CHR 0x0A, CHR 0x0B, CHR 0x0C, CHR 0x0D])"

text \<open>\<open>String.prototype.trim\<close>.\<close>

definition trim :: "string \<Rightarrow> string" where
  "trim s = rev (dropWhile isWhiteSpace (rev (dropWhile isWhiteSpace s)))"

text \<open>The value of a character as a digit of radix \<open>R\<close> (10 or 16), if it is one.\<close>

definition digitValue :: "nat \<Rightarrow> char \<Rightarrow> nat option" where
  "digitValue R c =
     (let n = (of_char c :: nat) in
      if 48 \<le> n \<and> n \<le> 57 then Some (n - 48)
      else if R = 16 \<and> 97 \<le> n \<and> n \<le> 102 then Some (n - 87)
      else if R = 16 \<and> 65 \<le> n \<and> n \<le> 70 then Some (n - 55)
      else None)"

text \<open>
  The longest prefix of radix-\<open>R\<close> digits, read as a number; \<open>None\<close> while no digit
  has been read.
\<close>

fun parseDigits :: "nat \<Rightarrow> string \<Rightarrow> nat option \<Rightarrow> nat option" where
  "parseDigits R [] acc = acc"
| "parseDigits R (c # cs) acc =
     (case digitValue R c of
        None \<Rightarrow> acc
      | Some d \<Rightarrow> parseDigits R cs (Some (R * (case acc of None \<Rightarrow> 0 | Some a \<Rightarrow> a) + d)))"

text \<open>
  \<open>parseInt(str)\<close> with no radix: leading white space is skipped, one sign is read,
  a \<open>0x\<close>/\<open>0X\<close> prefix selects radix 16, the longest digit prefix is the value, and
  no digit at all gives \<open>NaN\<close>.
\<close>

definition parseInt :: "string \<Rightarrow> int option" where
  "parseInt str =
     (let S = dropWhile isWhiteSpace str;
          neg = (take 1 S = ''-'');
          S1 = (if take 1 S = ''+'' \<or> take 1 S = ''-'' then drop 1 S else S);
          hex = (take 2 S1 = ''0x'' \<or> take 2 S1 = ''0X'');
          R = (if hex then 16 else 10);
          S2 = (if hex then drop 2 S1 else S1)
      in case parseDigits R S2 None of
           None \<Rightarrow> None
         | Some n \<Rightarrow> Some (if neg then - int n else int n))"

text \<open>Decimal digits of a natural number, as \<open>Number.prototype.toString\<close> writes them.\<close>

fun showNat :: "nat \<Rightarrow> string" where
  "showNat n =
     (if n < 10 then [char_of (48 + n)]
      else showNat (n div 10) @ [char_of (48 + n mod 10)])"

declare showNat.simps [simp del]

definition showInt :: "int \<Rightarrow> string" where
  "showInt i = (if i < 0 then CHR ''-'' # showNat (nat (- i)) else showNat (nat i))"

text \<open>\<open>num.toString()\<close> / \<open>String(num)\<close>, with \<open>NaN\<close> printed as the source prints it.\<close>

definition numberToString :: "int option \<Rightarrow> string" where
  "numberToString num = (case num of None \<Rightarrow> ''NaN'' | Some i \<Rightarrow> showInt i)"

text \<open>\<open>s.padStart(3, '0')\<close>.\<close>

definition padStart3 :: "string \<Rightarrow> string" where
  "padStart3 s = replicate (3 - length s) CHR ''0'' @ s"

text \<open>\<open>x || d\<close> on an optional string: \<open>undefined\<close> and the empty string are falsy.\<close>

definition orString :: "string option \<Rightarrow> string \<Rightarrow> string" where
  "orString x d = (case x of None \<Rightarrow> d | Some s \<Rightarrow> if s = [] then d else s)"

text \<open>\<open>NaN + 1\<close> is \<open>NaN\<close>.\<close>

definition plusOne :: "int option \<Rightarrow> int option" where
  "plusOne num = map_option (\<lambda>i. i + 1) num"

section \<open>JavaScript numbers\<close>

text \<open>
  A JavaScript number is an IEEE-754 double: a finite double is \<open>Finite r\<close> with
  \<open>r\<close> its exact value (the two zeros are both \<open>Finite 0\<close>; they are equal in
  every comparison the code makes, and both are falsy), and the other values are the
  two infinities and \<open>NaN\<close>. Arithmetic rounds the exact result to the nearest
  double, a tie going to the even significand.
\<close>

datatype number = Finite rat | PosInfinity | NegInfinity | NaN

text \<open>The position of the leading bit of a positive integer.\<close>

function ilog2 :: "int \<Rightarrow> int" where
  "ilog2 n = (if n < 2 then 0 else ilog2 (n div 2) + 1)"
  by pat_completeness auto
termination
  by (relation "measure nat") auto

declare ilog2.simps [simp del]

definition pow2 :: "int \<Rightarrow> rat" where
  "pow2 e = (if 0 \<le> e then of_int (2 ^ nat e) else 1 / of_int (2 ^ nat (- e)))"

text \<open>The binary exponent of a positive rational: \<open>2^e \<le> a < 2^(e+1)\<close>.\<close>

definition floorLog2 :: "rat \<Rightarrow> int" where
  "floorLog2 a =
     (case quotient_of a of
        (p, q) \<Rightarrow>
          let e0 = ilog2 p - ilog2 q
          in if a < pow2 e0 then e0 - 1 else e0)"

definition roundHalfEven :: "rat \<Rightarrow> int" where
  "roundHalfEven m =
     (let n = \<lfloor>m\<rfloor>; f = m - of_int n
      in if f < 1 / 2 then n else if 1 / 2 < f then n + 1 else if n mod 2 = 0 then n else n + 1)"

definition signedInfinity :: "bool \<Rightarrow> number" where
  "signedInfinity negative = (if negative then NegInfinity else PosInfinity)"

text \<open>
  The double nearest to a rational: 53 bits of significand, the unit in the last place
  not below \<open>2^-1074\<close> (subnormal numbers), and infinity when the rounded value
  reaches \<open>2^1024\<close>.
\<close>

definition toDouble :: "rat \<Rightarrow> number" where
  "toDouble x =
     (if x = 0 then Finite 0
      else let a = \<bar>x\<bar>;
               e = floorLog2 a
           in if 1024 \<le> e then signedInfinity (x < 0)
              else let u = max (e - 52) (- 1074);
                       n = roundHalfEven (a / pow2 u)
                   in if e = 1023 \<and> n = 2 ^ 53 then signedInfinity (x < 0)
                      else Finite (if x < 0 then - (of_int n * pow2 u) else of_int n * pow2 u))"

text \<open>\<open>a + b\<close>, \<open>a * b\<close> and \<open>a / 100\<close> on numbers.\<close>

fun fadd :: "number \<Rightarrow> number \<Rightarrow> number" where
  "fadd (Finite a) (Finite b) = toDouble (a + b)"
| "fadd NaN _ = NaN"
| "fadd _ NaN = NaN"
| "fadd PosInfinity NegInfinity = NaN"
| "fadd NegInfinity PosInfinity = NaN"
| "fadd PosInfinity _ = PosInfinity"
| "fadd NegInfinity _ = NegInfinity"
| "fadd _ PosInfinity = PosInfinity"
| "fadd _ NegInfinity = NegInfinity"

fun fmul :: "number \<Rightarrow> number \<Rightarrow> number" where
  "fmul (Finite a) (Finite b) = toDouble (a * b)"
| "fmul NaN _ = NaN"
| "fmul _ NaN = NaN"
| "fmul (Finite a) PosInfinity = (if a = 0 then NaN else signedInfinity (a < 0))"
| "fmul (Finite a) NegInfinity = (if a = 0 then NaN else signedInfinity (0 < a))"
| "fmul PosInfinity (Finite b) = (if b = 0 then NaN else signedInfinity (b < 0))"
| "fmul NegInfinity (Finite b) = (if b = 0 then NaN else signedInfinity (0 < b))"
| "fmul PosInfinity PosInfinity = PosInfinity"
| "fmul NegInfinity NegInfinity = PosInfinity"
| "fmul PosInfinity NegInfinity = NegInfinity"
| "fmul NegInfinity PosInfinity = NegInfinity"

fun fdiv100 :: "number \<Rightarrow> number" where
  "fdiv100 (Finite a) = toDouble (a / 100)"
| "fdiv100 x = x"

text \<open>
  \<open>parseFloat\<close> and \<open>parseInt\<close> on the text of an input: the argument is the decimal
  number, or the integer, that the function reads from the text (\<open>None\<close> when it
  reads none), and the result is the double nearest to it, or \<open>NaN\<close>.
\<close>

definition parseFloatValue :: "rat option \<Rightarrow> number" where
  "parseFloatValue v = (case v of None \<Rightarrow> NaN | Some x \<Rightarrow> toDouble x)"

definition parseIntValue :: "int option \<Rightarrow> number" where
  "parseIntValue v = (case v of None \<Rightarrow> NaN | Some k \<Rightarrow> toDouble (of_int k))"

text \<open>\<open>x || d\<close> on a number: \<open>NaN\<close> and zero are falsy.\<close>

definition orNumber :: "number \<Rightarrow> number \<Rightarrow> number" where
  "orNumber x d = (case x of NaN \<Rightarrow> d | Finite v \<Rightarrow> if v = 0 then d else x | _ \<Rightarrow> x)"

text \<open>
  \<open>parseFloat(x.toFixed(2))\<close>, the number that the text \<open>x.toFixed(2)\<close> denotes. Below
  \<open>10^21\<close> the text is the decimal with two digits nearest to the exact value of
  \<open>x\<close>, the larger one in magnitude at a tie, and reading it back gives the double
  nearest to that decimal. From \<open>10^21\<close> on, and for the infinities and \<open>NaN\<close>, the
  text is that of \<open>String(x)\<close>, which reads back as \<open>x\<close>.
\<close>

fun toFixed2 :: "number \<Rightarrow> number" where
  "toFixed2 (Finite x) =
     (if 10 ^ 21 \<le> \<bar>x\<bar> then Finite x
      else if x < 0 then toDouble (- (of_int \<lfloor>(- x) * 100 + 1 / 2\<rfloor> / 100))
      else toDouble (of_int \<lfloor>x * 100 + 1 / 2\<rfloor> / 100))"
| "toFixed2 x = x"

section \<open>Records of the store\<close>

text \<open>
  A phone of a vendor (\<open>phone\<close> object of the add-phone handler). \<open>bill_id\<close> is
  \<open>null\<close> until the phone is billed.
\<close>

record phone =
  phone_id :: string
  date_received :: string
  brand :: string
  model :: string
  issue :: string
  received_by :: string
  status :: string
  completed :: bool
  billed :: bool
  bill_id :: "string option"

text \<open>
  A line item of a bill (fields \<open>item\<close>, \<open>breakout\<close>, \<open>price\<close>, \<open>quantity\<close>,
  \<open>total\<close> of the source).
\<close>

record line_item =
  item :: string
  breakout :: string
  price :: number
  quantity :: number
  line_total :: number

text \<open>
  A vendor bill (\<open>newBill\<close> of \<open>saveVendorBill\<close>); \<open>vb_bill_id\<close>, \<open>vb_bill_number\<close>
  and \<open>vb_date\<close> are the source's \<open>bill_id\<close>, \<open>bill_number\<close> and \<open>date\<close>;
  \<open>updated_at\<close> is absent until the bill is edited, and \<open>saved_at\<close> is absent in
  the sample bill.
\<close>

record vendor_bill =
  vb_bill_id :: string
  vb_bill_number :: string
  vb_date :: string
  phone_ids :: "string list"
  items :: "line_item list"
  subtotal :: number
  tax :: number
  grand_total :: number
  saved_at :: "string option"
  updated_at :: "string option"

text \<open>
  One object of the \<open>records\<close> array. The three families share the array and are told
  apart by \<open>record_type\<close>; an identifier of another family is \<open>undefined\<close> (\<open>None\<close>).
  Only a vendor carries phones and bills; a missing \<open>bills\<close> array is the empty list
  here, so the source's \<open>if (!vendor.bills) vendor.bills = []\<close> is the identity.
\<close>

record store_record =
  record_type :: string
  service_id :: "string option"
  vendor_id :: "string option"
  laptop_id :: "string option"
  vendor_name :: string
  phones :: "phone list"
  bills :: "vendor_bill list"

section \<open>Identifier generation\<close>

text \<open>\<open>generateServiceID\<close>: the identifier after that of the last record of the array.\<close>

definition generateServiceID :: "store_record list \<Rightarrow> string" where
  "generateServiceID records =
     (if length records = 0 then ''SRV'' @ ''001''
      else let lastID = orString (service_id (last records)) (''SRV'' @ ''000'');
               num = plusOne (parseInt (drop 3 lastID))
           in ''SRV'' @ padStart3 (numberToString num))"

text \<open>\<open>generateVendorID\<close>: the identifier after that of the last vendor record.\<close>

definition generateVendorID :: "store_record list \<Rightarrow> string" where
  "generateVendorID records =
     (let vendorRecords = filter (\<lambda>r. record_type r = ''vendor'') records in
      if length vendorRecords = 0 then ''VND'' @ ''001''
      else let lastID = orString (vendor_id (last vendorRecords)) (''VND'' @ ''000'');
               num = plusOne (parseInt (drop 3 lastID))
           in ''VND'' @ padStart3 (numberToString num))"

text \<open>\<open>generatePhoneID\<close> and \<open>generateBillID\<close>: vendor-scoped identifiers.\<close>

definition generatePhoneID :: "string \<Rightarrow> nat \<Rightarrow> string" where
  "generatePhoneID vendorId phoneNumber = vendorId @ ''-P'' @ padStart3 (showNat phoneNumber)"

definition generateBillID :: "string \<Rightarrow> nat \<Rightarrow> string" where
  "generateBillID vendorId billNumber = vendorId @ ''-B'' @ padStart3 (showNat billNumber)"

text \<open>
  \<open>generateLaptopID\<close>: the loop keeps the highest number parsed from a laptop
  identifier (\<open>NaN\<close> is skipped), starting from 0.
\<close>

definition laptopMaxStep :: "int \<Rightarrow> store_record \<Rightarrow> int" where
  "laptopMaxStep maxNum r =
     (let ident = orString (laptop_id r) '''' in
      case parseInt (drop 3 ident) of
        None \<Rightarrow> maxNum
      | Some num \<Rightarrow> if num > maxNum then num else maxNum)"

definition generateLaptopID :: "store_record list \<Rightarrow> string" where
  "generateLaptopID records =
     (let laptopRecords = filter (\<lambda>r. record_type r = ''laptop'') records in
      if length laptopRecords = 0 then ''LAP'' @ ''001''
      else let maxNum = foldl laptopMaxStep 0 laptopRecords
           in ''LAP'' @ padStart3 (showInt (maxNum + 1)))"

section \<open>The working set and the forms\<close>

text \<open>
  The state the operations share: \<open>cachedRecords\<close> (what \<open>loadRecords\<close> copies and
  \<open>saveRecords\<close> replaces), the flag \<open>dbReady\<close>, the global
  \<open>window.selectedPhonesForBilling\<close>, and \<open>saves\<close>, the number of calls of
  \<open>saveRecords\<close> so far. \<open>loadRecords\<close> copies the array but not its objects, so a
  handler that changes \<open>vendor\<close> changes the cached object; every handler below that
  changes an object also calls \<open>saveRecords\<close> before it returns, and the paths that
  return early change nothing, which is what the returned state says.
\<close>

record selection =
  sel_vendorId :: string
  sel_phoneIds :: "string list"
  editingBillId :: "string option"

record app_state =
  cachedRecords :: "store_record list"
  dbReady :: bool
  selectedPhonesForBilling :: "selection option"
  saves :: nat

text \<open>What a handler reports with \<open>alert\<close> before it returns without saving.\<close>

datatype error =
    DatabaseInitializing
  | PleaseSelectVendor
  | VendorRecordNotFound
  | NoPhonesSelected
  | VendorOrBillsNotFound
  | BillNotFound

datatype save_result = BillCreated string | BillUpdated string

definition saveRecords :: "store_record list \<Rightarrow> app_state \<Rightarrow> app_state" where
  "saveRecords records s = s\<lparr>cachedRecords := records, saves := saves s + 1\<rparr>"

text \<open>\<open>Array.prototype.findIndex\<close>, with \<open>-1\<close> as \<open>None\<close>.\<close>

fun findIndex :: "('a \<Rightarrow> bool) \<Rightarrow> 'a list \<Rightarrow> nat option" where
  "findIndex P [] = None"
| "findIndex P (x # xs) = (if P x then Some 0 else map_option Suc (findIndex P xs))"

text \<open>
  A row of the items table. \<open>item_price\<close> and \<open>item_qty\<close> are the decimal number
  and the integer that \<open>parseFloat\<close> and \<open>parseInt\<close> read from the text of the two
  inputs (\<open>None\<close> when they read none); \<open>item_total\<close> is the number that
  \<open>parseFloat\<close> returns on the text of the \<open>.item-total\<close> cell, which is the initial
  \<open>0\<close>, a \<open>toFixed(2)\<close> text or a stored total.
\<close>

record item_row =
  item_desc :: string
  item_breakout :: string
  item_price :: "rat option"
  item_qty :: "int option"
  item_total :: number

text \<open>
  The billing form: the rows, the tax input (the decimal number that \<open>parseFloat\<close>
  reads from it), the numbers that \<open>parseFloat\<close> returns on the texts of the
  \<open>subtotal\<close>, \<open>taxAmount\<close> and \<open>grandTotal\<close> spans, and the hidden
  input \<open>selectedPhoneIds\<close> (\<open>None\<close> when the element is missing or its value is
  empty, otherwise the parsed list).
\<close>

record billing_form =
  item_rows :: "item_row list"
  taxPercent :: "rat option"
  subtotal_text :: number
  taxAmount_text :: number
  grandTotal_text :: number
  selectedPhoneIds :: "string list option"

section \<open>Line items and totals\<close>

text \<open>
  \<open>updateBillTotals\<close>: the three amounts are computed from the numbers shown in the
  rows and written to the spans with \<open>toFixed(2)\<close>. \<open>billTotals\<close> is the triple of
  the local variables \<open>subtotal\<close>, \<open>taxAmount\<close>, \<open>grandTotal\<close> (\<open>sub\<close> and \<open>pct\<close>
  stand for \<open>subtotal\<close> and \<open>taxPercent\<close>, which name fields here).
\<close>

definition billTotals :: "billing_form \<Rightarrow> number \<times> number \<times> number" where
  "billTotals form =
     (let sub = foldl (\<lambda>acc row. fadd acc (orNumber (item_total row) (Finite 0)))
                  (Finite 0) (item_rows form);
          pct = orNumber (parseFloatValue (taxPercent form)) (Finite 0);
          taxAmount = fdiv100 (fmul sub pct);
          grandTotal = fadd sub taxAmount
      in (sub, taxAmount, grandTotal))"

definition updateBillTotals :: "billing_form \<Rightarrow> billing_form" where
  "updateBillTotals form =
     (case billTotals form of
        (sub, taxAmount, grandTotal) \<Rightarrow>
          form\<lparr>subtotal_text := toFixed2 sub,
               taxAmount_text := toFixed2 taxAmount,
               grandTotal_text := toFixed2 grandTotal\<rparr>)"

text \<open>
  \<open>updateItemTotal\<close>: \<open>lineTotal\<close> is the local \<open>total\<close> of the row whose input
  changed; the cell gets \<open>total.toFixed(2)\<close> and the totals are refreshed. The row
  is given by its index.
\<close>

definition lineTotal :: "rat option \<Rightarrow> int option \<Rightarrow> number" where
  "lineTotal priceValue qtyValue =
     (let price = orNumber (parseFloatValue priceValue) (Finite 0);
          qty = orNumber (parseIntValue qtyValue) (Finite 1)
      in fmul price qty)"

definition updateItemTotal :: "nat \<Rightarrow> billing_form \<Rightarrow> billing_form" where
  "updateItemTotal i form =
     (if i < length (item_rows form)
      then let row = item_rows form ! i;
               total = lineTotal (item_price row) (item_qty row)
           in updateBillTotals
                (form\<lparr>item_rows := (item_rows form)[i := row\<lparr>item_total := toFixed2 total\<rparr>]\<rparr>)
      else form)"

text \<open>The item object that the save handlers build from a row.\<close>

definition collectItem :: "item_row \<Rightarrow> line_item" where
  "collectItem row =
     \<lparr>item = item_desc row,
      breakout = item_breakout row,
      price = orNumber (parseFloatValue (item_price row)) (Finite 0),
      quantity = orNumber (parseIntValue (item_qty row)) (Finite 1),
      line_total = orNumber (item_total row) (Finite 0)\<rparr>"

section \<open>Vendors and phones\<close>

text \<open>The submit handler of \<open>createVendorForm\<close>.\<close>

definition createVendor :: "string \<Rightarrow> app_state \<Rightarrow> (error + string) \<times> app_state" where
  "createVendor newVendorName s =
     (if \<not> dbReady s then (Inl DatabaseInitializing, s)
      else let records = cachedRecords s;
               newVendorId = generateVendorID records;
               vendorRecord = \<lparr>record_type = ''vendor'', service_id = None,
                  vendor_id = Some newVendorId, laptop_id = None,
                  vendor_name = trim newVendorName, phones = [], bills = []\<rparr>
           in (Inr newVendorId, saveRecords (records @ [vendorRecord]) s))"

text \<open>
  The submit handlers of the service form and of the laptop form, for the fields kept
  in \<open>store_record\<close>.
\<close>

definition createService :: "app_state \<Rightarrow> (error + string) \<times> app_state" where
  "createService s =
     (if \<not> dbReady s then (Inl DatabaseInitializing, s)
      else let records = cachedRecords s;
               newServiceId = generateServiceID records;
               newRecord = \<lparr>record_type = ''service'', service_id = Some newServiceId,
                  vendor_id = None, laptop_id = None,
                  vendor_name = [], phones = [], bills = []\<rparr>
           in (Inr newServiceId, saveRecords (records @ [newRecord]) s))"

definition createLaptop :: "app_state \<Rightarrow> (error + string) \<times> app_state" where
  "createLaptop s =
     (if \<not> dbReady s then (Inl DatabaseInitializing, s)
      else let records = cachedRecords s;
               laptopId = generateLaptopID records;
               laptopData = \<lparr>record_type = ''laptop'', service_id = None,
                  vendor_id = None, laptop_id = Some laptopId,
                  vendor_name = [], phones = [], bills = []\<rparr>
           in (Inr laptopId, saveRecords (records @ [laptopData]) s))"

text \<open>The fields of \<open>addPhoneForm\<close>.\<close>

record phone_form =
  phoneDate :: string
  phoneBrand :: string
  phoneModel :: string
  phoneIssue :: string
  phoneReceivedBy :: string

text \<open>
  The submit handler of \<open>addPhoneForm\<close>; \<open>vendorId\<close> is the value of the
  \<open>selectVendor\<close> dropdown.
\<close>

definition newPhone :: "string \<Rightarrow> phone_form \<Rightarrow> phone" where
  "newPhone phoneId formData =
     \<lparr>phone_id = phoneId,
      date_received = phoneDate formData,
      brand = trim (phoneBrand formData),
      model = trim (phoneModel formData),
      issue = trim (phoneIssue formData),
      received_by = phoneReceivedBy formData,
      status = ''Received'',
      completed = False,
      billed = False,
      bill_id = None\<rparr>"

definition addPhone :: "string \<Rightarrow> phone_form \<Rightarrow> app_state \<Rightarrow> (error + string) \<times> app_state" where
  "addPhone vendorId formData s =
     (let records = cachedRecords s in
      case findIndex (\<lambda>r. vendor_id r = Some vendorId) records of
        None \<Rightarrow> (Inl PleaseSelectVendor, s)
      | Some vendorIndex \<Rightarrow>
          let vendor = records ! vendorIndex;
              phoneNumber = length (phones vendor) + 1;
              phoneId = generatePhoneID vendorId phoneNumber;
              ph = newPhone phoneId formData;
              vendor' = vendor\<lparr>phones := phones vendor @ [ph]\<rparr>
          in (Inr phoneId, saveRecords (records[vendorIndex := vendor']) s))"

text \<open>
  \<open>updatePhoneStatus\<close>: the first vendor record that has a phone with the identifier
  gets the status written on the first such phone, the store is saved and the loop
  stops; when no phone is found nothing is saved.
\<close>

definition setStatus :: "string \<Rightarrow> phone \<Rightarrow> phone" where
  "setStatus newStatus p = p\<lparr>status := newStatus, completed := (newStatus = ''Ready'')\<rparr>"

fun updateFirstPhone :: "string \<Rightarrow> string \<Rightarrow> phone list \<Rightarrow> phone list option" where
  "updateFirstPhone phoneId newStatus [] = None"
| "updateFirstPhone phoneId newStatus (p # ps) =
     (if phone_id p = phoneId then Some (setStatus newStatus p # ps)
      else map_option ((#) p) (updateFirstPhone phoneId newStatus ps))"

fun updateStatusIn :: "string \<Rightarrow> string \<Rightarrow> store_record list \<Rightarrow> store_record list option" where
  "updateStatusIn phoneId newStatus [] = None"
| "updateStatusIn phoneId newStatus (r # rs) =
     (if record_type r = ''vendor'' then
        (case updateFirstPhone phoneId newStatus (phones r) of
           Some ps \<Rightarrow> Some (r\<lparr>phones := ps\<rparr> # rs)
         | None \<Rightarrow> map_option ((#) r) (updateStatusIn phoneId newStatus rs))
      else map_option ((#) r) (updateStatusIn phoneId newStatus rs))"

definition updatePhoneStatus :: "string \<Rightarrow> string \<Rightarrow> app_state \<Rightarrow> app_state" where
  "updatePhoneStatus phoneId newStatus s =
     (case updateStatusIn phoneId newStatus (cachedRecords s) of
        None \<Rightarrow> s
      | Some records \<Rightarrow> saveRecords records s)"

text \<open>
  The vendor-details table offers the status \<open>select\<close> only for a phone that is not
  \<open>Billed\<close>, with these three options; a \<open>Billed\<close> phone gets a badge and no control.
\<close>

definition statusOptions :: "phone \<Rightarrow> string list" where
  "statusOptions p =
     (if status p = ''Billed'' then [] else [''Received'', ''In Repair'', ''Ready''])"

section \<open>Vendor bills\<close>

text \<open>
  \<open>isEditMode\<close> of \<open>saveVendorBill\<close>: the bill identifier under edit, when the global
  selection exists and its \<open>editingBillId\<close> is truthy.
\<close>

definition editingBill :: "app_state \<Rightarrow> string option" where
  "editingBill s =
     (case selectedPhonesForBilling s of
        None \<Rightarrow> None
      | Some sel \<Rightarrow>
          (case editingBillId sel of
             None \<Rightarrow> None
           | Some billId \<Rightarrow> if billId = [] then None else Some billId))"

text \<open>The edit branch: items and totals of the bill at the index are replaced.\<close>

definition updateBill ::
  "nat \<Rightarrow> line_item list \<Rightarrow> number \<Rightarrow> number \<Rightarrow> number \<Rightarrow> string \<Rightarrow> store_record \<Rightarrow> store_record" where
  "updateBill existingBillIndex its sub tx grand now vendor =
     vendor\<lparr>bills := (bills vendor)[existingBillIndex :=
        (bills vendor ! existingBillIndex)\<lparr>items := its, subtotal := sub, tax := tx,
           grand_total := grand, updated_at := Some now\<rparr>]\<rparr>"

text \<open>The loop over \<open>vendor.phones\<close> that marks the selected phones.\<close>

definition markBilled :: "string list \<Rightarrow> string \<Rightarrow> phone \<Rightarrow> phone" where
  "markBilled selectedIds billId p =
     (if phone_id p \<in> set selectedIds
      then p\<lparr>billed := True, bill_id := Some billId, status := ''Billed''\<rparr>
      else p)"

text \<open>The creation branch on the vendor object: the new bill is pushed, the phones marked.\<close>

definition newBillOf ::
  "string \<Rightarrow> string \<Rightarrow> string list \<Rightarrow> line_item list \<Rightarrow> number \<Rightarrow> number \<Rightarrow> number \<Rightarrow> string \<Rightarrow> vendor_bill" where
  "newBillOf billId todayDate selectedIds its sub tx grand now =
     \<lparr>vb_bill_id = billId, vb_bill_number = billId, vb_date = todayDate,
      phone_ids = selectedIds, items = its, subtotal = sub, tax = tx,
      grand_total = grand, saved_at = Some now, updated_at = None\<rparr>"

definition createBill ::
  "string \<Rightarrow> vendor_bill \<Rightarrow> store_record \<Rightarrow> store_record" where
  "createBill billId newBill vendor =
     vendor\<lparr>bills := bills vendor @ [newBill],
            phones := map (markBilled (phone_ids newBill) billId) (phones vendor)\<rparr>"

text \<open>
  \<open>saveVendorBill(vendorId)\<close>, run on the billing form; \<open>todayDate\<close> and \<open>now\<close> are
  the two readings of the clock.
\<close>

definition saveVendorBill ::
  "string \<Rightarrow> billing_form \<Rightarrow> string \<Rightarrow> string \<Rightarrow> app_state \<Rightarrow> (error + save_result) \<times> app_state" where
  "saveVendorBill vendorId form todayDate now s =
     (let records = cachedRecords s in
      case findIndex (\<lambda>r. vendor_id r = Some vendorId) records of
        None \<Rightarrow> (Inl VendorRecordNotFound, s)
      | Some vendorIndex \<Rightarrow>
          let vendor = records ! vendorIndex;
              selectedIds = (case selectedPhoneIds form of
                 Some ids \<Rightarrow> ids
               | None \<Rightarrow> map phone_id (filter (\<lambda>p. \<not> billed p) (phones vendor)))
          in if length selectedIds = 0 then (Inl NoPhonesSelected, s)
             else
               let its = map collectItem (item_rows form);
                   sub = subtotal_text form;
                   tx = taxAmount_text form;
                   grand = grandTotal_text form;
                   existing = (case editingBill s of
                      None \<Rightarrow> None
                    | Some billId \<Rightarrow>
                        map_option (Pair billId)
                          (findIndex (\<lambda>b. vb_bill_id b = billId) (bills vendor)))
               in (case existing of
                     Some (billId, existingBillIndex) \<Rightarrow>
                       (Inr (BillUpdated billId),
                        (saveRecords
                           (records[vendorIndex :=
                              updateBill existingBillIndex its sub tx grand now vendor]) s)
                         \<lparr>selectedPhonesForBilling := None\<rparr>)
                   | None \<Rightarrow>
                       (let billNumber = length (bills vendor) + 1;
                            billId = generateBillID vendorId billNumber;
                            newBill = newBillOf billId todayDate selectedIds its sub tx grand now
                        in (Inr (BillCreated billId),
                            (saveRecords
                               (records[vendorIndex := createBill billId newBill vendor]) s)
                             \<lparr>selectedPhonesForBilling := None\<rparr>))))"

text \<open>
  \<open>editVendorBill\<close>, up to the point where it opens the form: the bill is looked up
  and the global selection is set for editing it.
\<close>

definition editVendorBill :: "string \<Rightarrow> string \<Rightarrow> app_state \<Rightarrow> (error + unit) \<times> app_state" where
  "editVendorBill vendorId billId s =
     (case find (\<lambda>r. vendor_id r = Some vendorId) (cachedRecords s) of
        None \<Rightarrow> (Inl VendorOrBillsNotFound, s)
      | Some vendor \<Rightarrow>
          (case find (\<lambda>b. vb_bill_id b = billId) (bills vendor) of
             None \<Rightarrow> (Inl BillNotFound, s)
           | Some bill \<Rightarrow>
               (Inr (),
                s\<lparr>selectedPhonesForBilling :=
                    Some \<lparr>sel_vendorId = vendorId, sel_phoneIds = phone_ids bill,
                          editingBillId = Some billId\<rparr>\<rparr>)))"

section \<open>Warranty dates\<close>

text \<open>
  A calendar date, as the text \<open>YYYY-MM-DD\<close> of a date input denotes it.
  \<open>new Date(fromDate)\<close> reads such a text as midnight UTC; \<open>getMonth\<close> and
  \<open>setMonth\<close> work in local time and \<open>toISOString\<close> in UTC. The model is the
  source run where local time is UTC, or any zone ahead of UTC without daylight saving
  (the shop's own zone is one): there the local date of the instant is the date of
  the text. A text that is not a date of the calendar gives \<open>Invalid Date\<close>, on which
  \<open>toISOString\<close> throws: \<open>None\<close>.
\<close>

record date =
  year :: nat
  month :: nat
  day :: nat

definition isLeapYear :: "nat \<Rightarrow> bool" where
  "isLeapYear y = (y mod 4 = 0 \<and> (y mod 100 \<noteq> 0 \<or> y mod 400 = 0))"

definition daysInMonth :: "nat \<Rightarrow> nat \<Rightarrow> nat" where
  "daysInMonth y m =
     (if m = 2 then (if isLeapYear y then 29 else 28)
      else if m = 4 \<or> m = 6 \<or> m = 9 \<or> m = 11 then 30
      else 31)"

definition validDate :: "date \<Rightarrow> bool" where
  "validDate d =
     (1 \<le> month d \<and> month d \<le> 12 \<and> 1 \<le> day d \<and> day d \<le> daysInMonth (year d) (month d))"

text \<open>
  \<open>date.setMonth(date.getMonth() + months)\<close>: the month index is advanced and carried
  into the year, the day of the month is kept, and a day that the new month does not
  have runs over into the month after it (a day is at most 31 and a month has at least
  28 days, so it runs over once).
\<close>

definition setMonthPlus :: "nat \<Rightarrow> date \<Rightarrow> date" where
  "setMonthPlus months d =
     (let m0 = (month d - 1) + months;
          y = year d + m0 div 12;
          m = m0 mod 12 + 1
      in if day d \<le> daysInMonth y m then \<lparr>year = y, month = m, day = day d\<rparr>
         else \<lparr>year = (if m = 12 then y + 1 else y),
               month = m mod 12 + 1,
               day = day d - daysInMonth y m\<rparr>)"

text \<open>
  \<open>calculateWarrantyEndDate\<close>; the result is the date that
  \<open>toISOString().slice(0, 10)\<close> writes (as \<open>YYYY-MM-DD\<close> while the year has four
  digits).
\<close>

definition warrantyMonths :: "string \<Rightarrow> nat" where
  "warrantyMonths warranty = (if warranty = ''6'' \<or> warranty = ''6 months'' then 6 else 3)"

definition calculateWarrantyEndDate :: "date \<Rightarrow> string \<Rightarrow> date option" where
  "calculateWarrantyEndDate fromDate warranty =
     (if validDate fromDate then Some (setMonthPlus (warrantyMonths warranty) fromDate)
      else None)"

text \<open>
  The specification's reading of "\<open>d\<close> plus exactly \<open>k\<close> calendar months": the same
  day of the month, \<open>k\<close> months on in the count of months.
\<close>

definition plusCalendarMonths :: "date \<Rightarrow> nat \<Rightarrow> date \<Rightarrow> bool" where
  "plusCalendarMonths d k r =
     (day r = day d \<and> year r * 12 + month r = year d * 12 + month d + k)"

section \<open>Sample data\<close>

text \<open>
  \<open>initializeSampleData\<close>: an empty store is filled with one service record and one
  vendor record (the fields kept in \<open>store_record\<close>).
\<close>

definition sampleIndividualRecord :: store_record where
  "sampleIndividualRecord =
     \<lparr>record_type = ''service'', service_id = Some ''SRV001'', vendor_id = None,
      laptop_id = None, vendor_name = [], phones = [], bills = []\<rparr>"

definition samplePhone :: "string \<Rightarrow> string \<Rightarrow> string \<Rightarrow> string \<Rightarrow> string \<Rightarrow> string
    \<Rightarrow> string \<Rightarrow> bool \<Rightarrow> bool \<Rightarrow> string option \<Rightarrow> phone" where
  "samplePhone i d b m iss r st c bl bid =
     \<lparr>phone_id = i, date_received = d, brand = b, model = m, issue = iss, received_by = r,
      status = st, completed = c, billed = bl, bill_id = bid\<rparr>"

definition sampleVendorRecord :: store_record where
  "sampleVendorRecord =
     \<lparr>record_type = ''vendor'', service_id = None, vendor_id = Some ''VND001'',
      laptop_id = None, vendor_name = ''ABC Mobile Shop'',
      phones =
        [samplePhone ''VND001-P001'' ''2025-10-25'' ''Samsung'' ''Galaxy S21'' ''Display broken''
           ''Avinash'' ''Billed'' True True (Some ''VND001-B001''),
         samplePhone ''VND001-P002'' ''2025-10-25'' ''Apple'' ''iPhone 13'' ''Battery issue''
           ''Avinash'' ''Billed'' True True (Some ''VND001-B001''),
         samplePhone ''VND001-P003'' ''2025-10-26'' ''Vivo'' ''V21'' ''Charging port''
           ''Aryan'' ''Ready'' True False None,
         samplePhone ''VND001-P004'' ''2025-10-26'' ''Oppo'' ''F19'' ''Screen replacement''
           ''Aryan'' ''In Repair'' False False None,
         samplePhone ''VND001-P005'' ''2025-10-26'' ''Realme'' ''8'' ''Water damage''
           ''Sameer'' ''Received'' False False None],
      bills =
        [\<lparr>vb_bill_id = ''VND001-B001'', vb_bill_number = ''VND001-B001'',
          vb_date = ''2025-10-27'', phone_ids = [''VND001-P001'', ''VND001-P002''],
          items =
            [\<lparr>item = ''Display (Samsung)'', breakout = ''Original'', price = Finite 1300,
               quantity = Finite 1, line_total = Finite 1300\<rparr>,
             \<lparr>item = ''Battery (Apple)'', breakout = ''Compatible'', price = Finite 900,
               quantity = Finite 1, line_total = Finite 900\<rparr>],
          subtotal = Finite 2200, tax = Finite 0, grand_total = Finite 2200,
          saved_at = None, updated_at = None\<rparr>]\<rparr>"

definition initializeSampleData :: "app_state \<Rightarrow> app_state" where
  "initializeSampleData s =
     (if length (cachedRecords s) = 0
      then saveRecords [sampleIndividualRecord, sampleVendorRecord] s
      else s)"

text \<open>
  The state of a fresh start (\<open>cachedRecords = []\<close> once the database is open), the
  state after \<open>initializeSampleData\<close>, and a billing form with the one item of the
  specification's scenario (price 1300, quantity 1, tax 0) as \<open>updateItemTotal\<close>
  leaves it, for a given content of the hidden input.
\<close>

definition emptyState :: app_state where
  "emptyState = \<lparr>cachedRecords = [], dbReady = True, selectedPhonesForBilling = None, saves = 0\<rparr>"

definition sampleState :: app_state where
  "sampleState = initializeSampleData emptyState"

definition sampleForm :: "string list option \<Rightarrow> billing_form" where
  "sampleForm hidden =
     updateItemTotal 0
       \<lparr>item_rows = [\<lparr>item_desc = ''Service Charge'', item_breakout = ''All Phones'',
                       item_price = Some 1300, item_qty = Some 1, item_total = Finite 0\<rparr>],
        taxPercent = Some 0, subtotal_text = Finite 0, taxAmount_text = Finite 0,
        grandTotal_text = Finite 0,
        selectedPhoneIds = hidden\<rparr>"

text \<open>
  The sample state after \<open>editVendorBill\<close> has set the global selection for a bill
  identifier (whether or not the vendor has that bill when the form is saved).
\<close>

definition editingState :: "string \<Rightarrow> app_state" where
  "editingState billId =
     sampleState\<lparr>selectedPhonesForBilling :=
       Some \<lparr>sel_vendorId = ''VND001'', sel_phoneIds = [''VND001-P001'', ''VND001-P002''],
             editingBillId = Some billId\<rparr>\<rparr>"

text \<open>
  The specification's \<open>computeLineItem\<close>: a negative price is raised to 0 and a
  quantity below 1 is raised to 1 before they are multiplied.
\<close>

definition clampedLineTotal :: "rat \<Rightarrow> int \<Rightarrow> number" where
  "clampedLineTotal p q = fmul (toDouble (max 0 p)) (toDouble (of_int (max 1 q)))"

text \<open>A form with one row, before any total has been computed.\<close>

definition oneRowForm :: "rat option \<Rightarrow> int option \<Rightarrow> rat option \<Rightarrow> string list option \<Rightarrow> billing_form" where
  "oneRowForm priceValue qtyValue taxValue hidden =
     \<lparr>item_rows = [\<lparr>item_desc = ''Service Charge'', item_breakout = ''All Phones'',
                     item_price = priceValue, item_qty = qtyValue, item_total = Finite 0\<rparr>],
      taxPercent = taxValue, subtotal_text = Finite 0, taxAmount_text = Finite 0,
      grandTotal_text = Finite 0, selectedPhoneIds = hidden\<rparr>"

text \<open>
  A form with two rows of quantity 1 after both totals have been computed, and the
  bill that \<open>saveVendorBill\<close> appends for the vendor of the sample state when it is
  given a form.
\<close>

definition twoRowForm :: "rat \<Rightarrow> rat \<Rightarrow> rat option \<Rightarrow> string list option \<Rightarrow> billing_form" where
  "twoRowForm price1 price2 taxValue hidden =
     updateItemTotal 1 (updateItemTotal 0
       \<lparr>item_rows = [\<lparr>item_desc = ''Display'', item_breakout = ''Original'',
                       item_price = Some price1, item_qty = Some 1, item_total = Finite 0\<rparr>,
                     \<lparr>item_desc = ''Battery'', item_breakout = ''Compatible'',
                       item_price = Some price2, item_qty = Some 1, item_total = Finite 0\<rparr>],
        taxPercent = taxValue, subtotal_text = Finite 0, taxAmount_text = Finite 0,
        grandTotal_text = Finite 0, selectedPhoneIds = hidden\<rparr>)"

definition billSavedFrom :: "billing_form \<Rightarrow> vendor_bill" where
  "billSavedFrom form =
     last (bills (cachedRecords (snd (saveVendorBill ''VND001'' form ''2025-11-03''
       ''2025-11-03T10:00:00.000Z'' sampleState)) ! 1))"

section \<open>Sequences of operations and the billing invariant\<close>

text \<open>
  The phone that the loop of \<open>updatePhoneStatus\<close> finds: the first phone with the
  identifier in the first vendor record that has one.
\<close>

fun findPhoneIn :: "string \<Rightarrow> store_record list \<Rightarrow> phone option" where
  "findPhoneIn phoneId [] = None"
| "findPhoneIn phoneId (r # rs) =
     (if record_type r = ''vendor'' then
        (case find (\<lambda>p. phone_id p = phoneId) (phones r) of
           Some p \<Rightarrow> Some p
         | None \<Rightarrow> findPhoneIn phoneId rs)
      else findPhoneIn phoneId rs)"

text \<open>The operations that change the store, as values, and a run of them in order.\<close>

datatype operation =
    InitializeSampleData
  | CreateService
  | CreateLaptop
  | CreateVendor string
  | AddPhone string phone_form
  | UpdatePhoneStatus string string
  | EditVendorBill string string
  | SaveVendorBill string billing_form string string

fun perform :: "operation \<Rightarrow> app_state \<Rightarrow> app_state" where
  "perform InitializeSampleData s = initializeSampleData s"
| "perform CreateService s = snd (createService s)"
| "perform CreateLaptop s = snd (createLaptop s)"
| "perform (CreateVendor newVendorName) s = snd (createVendor newVendorName s)"
| "perform (AddPhone vendorId formData) s = snd (addPhone vendorId formData s)"
| "perform (UpdatePhoneStatus phoneId newStatus) s = updatePhoneStatus phoneId newStatus s"
| "perform (EditVendorBill vendorId billId) s = snd (editVendorBill vendorId billId s)"
| "perform (SaveVendorBill vendorId form todayDate now) s =
     snd (saveVendorBill vendorId form todayDate now s)"

fun run :: "operation list \<Rightarrow> app_state \<Rightarrow> app_state" where
  "run [] s = s"
| "run (op # ops) s = run ops (perform op s)"

text \<open>
  A status update that the vendor-details table can make: the new status is one of
  the options shown for the phone that the update finds. A run in which every status
  update is such; the other operations are not restricted.
\<close>

fun statusOffered :: "operation \<Rightarrow> app_state \<Rightarrow> bool" where
  "statusOffered (UpdatePhoneStatus phoneId newStatus) s =
     (case findPhoneIn phoneId (cachedRecords s) of
        None \<Rightarrow> True
      | Some p \<Rightarrow> newStatus \<in> set (statusOptions p))"
| "statusOffered _ s = True"

fun statusOfferedRun :: "operation list \<Rightarrow> app_state \<Rightarrow> bool" where
  "statusOfferedRun [] s = True"
| "statusOfferedRun (op # ops) s = (statusOffered op s \<and> statusOfferedRun ops (perform op s))"

text \<open>The selection that \<open>saveVendorBill\<close> takes from a form for a vendor.\<close>

definition selectionOf :: "billing_form \<Rightarrow> store_record \<Rightarrow> string list" where
  "selectionOf form vendor =
     (case selectedPhoneIds form of
        Some ids \<Rightarrow> ids
      | None \<Rightarrow> map phone_id (filter (\<lambda>p. \<not> billed p) (phones vendor)))"

text \<open>
  What the screens offer for a new bill: identifiers of phones of the vendor, none of
  them billed (the checkbox of a billed phone is disabled, and the default selection
  is the unbilled phones).
\<close>

definition unbilledSelection :: "store_record \<Rightarrow> string list \<Rightarrow> bool" where
  "unbilledSelection vendor sel =
     ((\<forall>pid\<in>set sel. \<exists>p\<in>set (phones vendor). phone_id p = pid)
      \<and> (\<forall>p\<in>set (phones vendor). phone_id p \<in> set sel \<longrightarrow> \<not> billed p))"

text \<open>
  A run in which every save that creates a bill has such a selection; the other
  operations are not restricted.
\<close>

fun offered :: "operation \<Rightarrow> app_state \<Rightarrow> bool" where
  "offered (SaveVendorBill vendorId form todayDate now) s =
     (case findIndex (\<lambda>r. vendor_id r = Some vendorId) (cachedRecords s) of
        None \<Rightarrow> True
      | Some i \<Rightarrow>
          (case fst (saveVendorBill vendorId form todayDate now s) of
             Inr (BillCreated billId) \<Rightarrow>
               unbilledSelection (cachedRecords s ! i) (selectionOf form (cachedRecords s ! i))
           | _ \<Rightarrow> True))"
| "offered _ s = True"

fun offeredRun :: "operation list \<Rightarrow> app_state \<Rightarrow> bool" where
  "offeredRun [] s = True"
| "offeredRun (op # ops) s = (offered op s \<and> offeredRun ops (perform op s))"

text \<open>
  The invariant of the claim for one record: the phone lists of its bills are pairwise
  disjoint, and a phone is billed exactly when one bill lists it.
\<close>

fun pairwiseDisjoint :: "string list list \<Rightarrow> bool" where
  "pairwiseDisjoint [] = True"
| "pairwiseDisjoint (x # xs) = ((\<forall>y\<in>set xs. set x \<inter> set y = {}) \<and> pairwiseDisjoint xs)"

definition billsContaining :: "store_record \<Rightarrow> string \<Rightarrow> vendor_bill list" where
  "billsContaining vendor pid = filter (\<lambda>b. pid \<in> set (phone_ids b)) (bills vendor)"

definition exactlyOnceBilled :: "store_record \<Rightarrow> bool" where
  "exactlyOnceBilled vendor =
     (pairwiseDisjoint (map phone_ids (bills vendor))
      \<and> (\<forall>p\<in>set (phones vendor). billed p = (length (billsContaining vendor (phone_id p)) = 1)))"

text \<open>
  The invariant that the operations keep, on what it depends on: the vendor
  identifier, the identifier and flag of each phone, and the phone list of each bill.
  Phones are numbered in the order they were added, bills list phones of the vendor
  only, and the two parts of the claim hold.
\<close>

definition coreInv :: "string option \<Rightarrow> (string \<times> bool) list \<Rightarrow> string list list \<Rightarrow> bool" where
  "coreInv vid ps bl =
     ((case vid of
         None \<Rightarrow> ps = [] \<and> bl = []
       | Some v \<Rightarrow> map fst ps = map (generatePhoneID v) [1..<Suc (length ps)])
      \<and> (\<forall>b\<in>set bl. set b \<subseteq> fst ` set ps)
      \<and> pairwiseDisjoint bl
      \<and> (\<forall>x\<in>set ps. snd x = (length (filter (\<lambda>b. fst x \<in> set b) bl) = 1)))"

definition recordInv :: "store_record \<Rightarrow> bool" where
  "recordInv r =
     coreInv (vendor_id r) (map (\<lambda>p. (phone_id p, billed p)) (phones r))
       (map phone_ids (bills r))"

text \<open>The number that a string of decimal digits denotes.\<close>

definition decimalValue :: "string \<Rightarrow> nat" where
  "decimalValue str = foldl (\<lambda>a c. 10 * a + (of_char c - 48)) 0 str"

section \<open>Properties of the identifier generators\<close>

lemma findIndex_Some:
  "findIndex P xs = Some i \<Longrightarrow> i < length xs \<and> P (xs ! i) \<and> (\<forall>j<i. \<not> P (xs ! j))"
proof (induction xs arbitrary: i)
  case Nil
  then show ?case by simp
next
  case (Cons x xs)
  show ?case
  proof (cases "P x")
    case True
    with Cons.prems show ?thesis by simp
  next
    case False
    with Cons.prems obtain k where k: "findIndex P xs = Some k" and i: "i = Suc k"
      by auto
    from Cons.IH [OF k] False i show ?thesis
      by (auto simp: nth_Cons split: nat.splits)
  qed
qed

lemma findIndex_None: "findIndex P xs = None \<longleftrightarrow> (\<forall>x\<in>set xs. \<not> P x)"
  by (induction xs) auto

text \<open>
  C4. The claim is that each of the three generators returns the successor of the
  highest number among the existing identifiers of its family, whatever the order of
  the records. \<open>generateServiceID\<close> and \<open>generateVendorID\<close> read the last record
  instead: on the store that \<open>initializeSampleData\<close> itself writes, whose last record
  is the vendor, the next service identifier is \<open>SRV001\<close> again, although \<open>SRV001\<close>
  is in the store; on records out of order both return an identifier that exists;
  \<open>generateLaptopID\<close> on the same shape of input returns the successor of the
  maximum.
\<close>

theorem generateServiceID_repeats_existing_id:
  "generateServiceID [sampleIndividualRecord, sampleVendorRecord] = ''SRV001''
   \<and> service_id sampleIndividualRecord = Some ''SRV001''
   \<and> generateServiceID
        [sampleIndividualRecord\<lparr>service_id := Some ''SRV002''\<rparr>, sampleIndividualRecord]
       = ''SRV002''
   \<and> generateVendorID
        [sampleVendorRecord\<lparr>vendor_id := Some ''VND002''\<rparr>, sampleVendorRecord]
       = ''VND002''
   \<and> generateLaptopID
        [sampleIndividualRecord\<lparr>record_type := ''laptop'', laptop_id := Some ''LAP002''\<rparr>,
         sampleIndividualRecord\<lparr>record_type := ''laptop'', laptop_id := Some ''LAP001''\<rparr>]
       = ''LAP003''"
  by code_simp

section \<open>Properties of the phone operations\<close>

text \<open>
  C10. A phone made by the add-phone handler has status \<open>Received\<close>, is neither
  completed nor billed, has no bill identifier, and its identifier is the identifier
  of the vendor it is added to, then \<open>-P\<close>, then the successor of the number of
  phones the vendor had, padded with zeros to three digits; the phone is appended to
  that vendor and the store is saved.
\<close>

theorem addPhone_initial_fields:
  assumes "findIndex (\<lambda>r. vendor_id r = Some vendorId) (cachedRecords s) = Some i"
    and "vendor = cachedRecords s ! i"
    and "ph = newPhone (vendorId @ ''-P'' @ padStart3 (showNat (length (phones vendor) + 1))) formData"
  shows "addPhone vendorId formData s =
            (Inr (phone_id ph),
             saveRecords ((cachedRecords s)[i := vendor\<lparr>phones := phones vendor @ [ph]\<rparr>]) s)
          \<and> vendor_id vendor = Some vendorId
          \<and> phone_id ph = vendorId @ ''-P'' @ padStart3 (showNat (length (phones vendor) + 1))
          \<and> status ph = ''Received'' \<and> completed ph = False \<and> billed ph = False
          \<and> bill_id ph = None"
proof -
  from findIndex_Some [OF assms(1)] assms(2) have "vendor_id vendor = Some vendorId"
    by simp
  with assms show ?thesis
    by (simp add: addPhone_def Let_def newPhone_def generatePhoneID_def)
qed

theorem addPhone_initial_fields_witness:
  "findIndex (\<lambda>r. vendor_id r = Some ''VND001'')
      (cachedRecords \<lparr>cachedRecords = [sampleIndividualRecord, sampleVendorRecord],
         dbReady = True, selectedPhonesForBilling = None, saves = 1\<rparr>) = Some 1
   \<and> fst (addPhone ''VND001''
          \<lparr>phoneDate = ''2025-10-28'', phoneBrand = ''Nokia'', phoneModel = ''G20'',
            phoneIssue = ''Speaker'', phoneReceivedBy = ''Aryan''\<rparr>
          \<lparr>cachedRecords = [sampleIndividualRecord, sampleVendorRecord],
            dbReady = True, selectedPhonesForBilling = None, saves = 1\<rparr>) = Inr ''VND001-P006''"
proof -
  let ?s = "\<lparr>cachedRecords = [sampleIndividualRecord, sampleVendorRecord],
         dbReady = True, selectedPhonesForBilling = None, saves = 1\<rparr>"
  let ?f = "\<lparr>phoneDate = ''2025-10-28'', phoneBrand = ''Nokia'', phoneModel = ''G20'',
            phoneIssue = ''Speaker'', phoneReceivedBy = ''Aryan''\<rparr>"
  let ?v = "cachedRecords ?s ! 1"
  let ?pid = "''VND001'' @ ''-P'' @ padStart3 (showNat (length (phones ?v) + 1))"
  have h: "findIndex (\<lambda>r. vendor_id r = Some ''VND001'') (cachedRecords ?s) = Some 1"
    by (simp add: sampleIndividualRecord_def sampleVendorRecord_def)
  have n: "?pid = ''VND001-P006''"
    by code_simp
  have "fst (addPhone ''VND001'' ?f ?s) = Inr (phone_id (newPhone ?pid ?f))"
    using addPhone_initial_fields [OF h refl refl, of ?f] by simp
  moreover have "phone_id (newPhone ?pid ?f) = ?pid"
    using addPhone_initial_fields [OF h refl refl, of ?f] by simp
  ultimately have "fst (addPhone ''VND001'' ?f ?s) = Inr ''VND001-P006''"
    using n by simp
  with h show ?thesis by (rule conjI)
qed

section \<open>Properties of vendor billing\<close>

text \<open>The selection that \<open>saveVendorBill\<close> works with, for a form and a vendor.\<close>

lemma saveVendorBill_found:
  assumes "findIndex (\<lambda>r. vendor_id r = Some vendorId) (cachedRecords s) = Some i"
    and "vendor = cachedRecords s ! i"
    and "sel = (case selectedPhoneIds form of
                  Some ids \<Rightarrow> ids
                | None \<Rightarrow> map phone_id (filter (\<lambda>p. \<not> billed p) (phones vendor)))"
    and "sel \<noteq> []"
  shows "saveVendorBill vendorId form todayDate now s =
     (case (case editingBill s of
              None \<Rightarrow> None
            | Some billId \<Rightarrow>
                map_option (Pair billId) (findIndex (\<lambda>b. vb_bill_id b = billId) (bills vendor))) of
        Some (billId, k) \<Rightarrow>
          (Inr (BillUpdated billId),
           (saveRecords ((cachedRecords s)[i :=
              updateBill k (map collectItem (item_rows form)) (subtotal_text form)
                (taxAmount_text form) (grandTotal_text form) now vendor]) s)
            \<lparr>selectedPhonesForBilling := None\<rparr>)
      | None \<Rightarrow>
          (Inr (BillCreated (generateBillID vendorId (length (bills vendor) + 1))),
           (saveRecords ((cachedRecords s)[i :=
              createBill (generateBillID vendorId (length (bills vendor) + 1))
                (newBillOf (generateBillID vendorId (length (bills vendor) + 1)) todayDate sel
                   (map collectItem (item_rows form)) (subtotal_text form)
                   (taxAmount_text form) (grandTotal_text form) now) vendor]) s)
            \<lparr>selectedPhonesForBilling := None\<rparr>))"
  using assms by (simp add: saveVendorBill_def Let_def split: option.splits)

text \<open>
  C3. When the vendor is found, the selection (the hidden input, or all unbilled phones
  when it is empty) is not empty, and no existing bill is under edit, \<open>saveVendorBill\<close>
  reports the bill identifier \<open>vendorId-B\<close> followed by the padded successor of the
  number of bills, appends one bill with that identifier whose phone list is the
  selection, gives every phone whose identifier is selected the status \<open>Billed\<close>,
  \<open>billed = true\<close> and the new bill identifier, leaves every other phone as it
  was, leaves the other records as they were, and calls \<open>saveRecords\<close> once.
\<close>

theorem saveVendorBill_creates_bill:
  assumes "findIndex (\<lambda>r. vendor_id r = Some vendorId) (cachedRecords s) = Some i"
    and "vendor = cachedRecords s ! i"
    and "sel = (case selectedPhoneIds form of
                  Some ids \<Rightarrow> ids
                | None \<Rightarrow> map phone_id (filter (\<lambda>p. \<not> billed p) (phones vendor)))"
    and "sel \<noteq> []"
    and "\<forall>b. editingBill s = Some b \<longrightarrow> (\<forall>x\<in>set (bills vendor). vb_bill_id x \<noteq> b)"
    and "billId = vendorId @ ''-B'' @ padStart3 (showNat (length (bills vendor) + 1))"
    and "(res, s') = saveVendorBill vendorId form todayDate now s"
    and "vendor' = cachedRecords s' ! i"
  shows "res = Inr (BillCreated billId)
     \<and> saves s' = saves s + 1
     \<and> cachedRecords s' = (cachedRecords s)[i := vendor']
     \<and> (\<exists>newBill. bills vendor' = bills vendor @ [newBill]
           \<and> vb_bill_id newBill = billId \<and> phone_ids newBill = sel)
     \<and> length (phones vendor') = length (phones vendor)
     \<and> (\<forall>k<length (phones vendor).
           if phone_id (phones vendor ! k) \<in> set sel
           then phones vendor' ! k =
                  (phones vendor ! k)\<lparr>billed := True, bill_id := Some billId, status := ''Billed''\<rparr>
           else phones vendor' ! k = phones vendor ! k)"
proof -
  have i: "i < length (cachedRecords s)"
    using findIndex_Some [OF assms(1)] by simp
  have "case editingBill s of
          None \<Rightarrow> True
        | Some b \<Rightarrow> findIndex (\<lambda>x. vb_bill_id x = b) (bills vendor) = None"
    using assms(5) by (auto simp: findIndex_None split: option.splits)
  then have ex: "(case editingBill s of
              None \<Rightarrow> None
            | Some b \<Rightarrow>
                map_option (Pair b) (findIndex (\<lambda>x. vb_bill_id x = b) (bills vendor))) = None"
    by (auto split: option.splits)
  have id: "generateBillID vendorId (length (bills vendor) + 1) = billId"
    using assms(6) by (simp add: generateBillID_def)
  let ?nb = "newBillOf billId todayDate sel (map collectItem (item_rows form))
     (subtotal_text form) (taxAmount_text form) (grandTotal_text form) now"
  have r: "saveVendorBill vendorId form todayDate now s =
      (Inr (BillCreated billId),
       (saveRecords ((cachedRecords s)[i := createBill billId ?nb vendor]) s)
         \<lparr>selectedPhonesForBilling := None\<rparr>)"
    unfolding saveVendorBill_found [OF assms(1-4)] ex id by simp
  from r assms(7) have res: "res = Inr (BillCreated billId)"
    and s': "s' = (saveRecords ((cachedRecords s)[i := createBill billId ?nb vendor]) s)
         \<lparr>selectedPhonesForBilling := None\<rparr>"
    by simp_all
  from s' i assms(8) have v': "vendor' = createBill billId ?nb vendor"
    by (simp add: saveRecords_def)
  have nb: "vb_bill_id ?nb = billId" "phone_ids ?nb = sel"
    by (simp_all add: newBillOf_def)
  have "bills vendor' = bills vendor @ [?nb]"
    using v' by (simp add: createBill_def)
  with nb have b: "\<exists>newBill. bills vendor' = bills vendor @ [newBill]
           \<and> vb_bill_id newBill = billId \<and> phone_ids newBill = sel"
    by blast
  have p: "\<forall>k<length (phones vendor).
           if phone_id (phones vendor ! k) \<in> set sel
           then phones vendor' ! k =
                  (phones vendor ! k)\<lparr>billed := True, bill_id := Some billId, status := ''Billed''\<rparr>
           else phones vendor' ! k = phones vendor ! k"
    using v' nb by (simp add: createBill_def markBilled_def)
  have l: "length (phones vendor') = length (phones vendor)"
    using v' by (simp add: createBill_def)
  have c: "cachedRecords s' = (cachedRecords s)[i := vendor']"
    using s' v' by (simp add: saveRecords_def)
  have n: "saves s' = saves s + 1"
    using s' by (simp add: saveRecords_def)
  from res n c b l p show ?thesis by blast
qed

theorem saveVendorBill_creates_bill_witness:
  "findIndex (\<lambda>r. vendor_id r = Some ''VND001'') (cachedRecords sampleState) = Some 1
   \<and> fst (saveVendorBill ''VND001'' (sampleForm (Some [''VND001-P003'', ''VND001-P004'']))
          ''2025-11-03'' ''2025-11-03T10:00:00.000Z'' sampleState)
       = Inr (BillCreated ''VND001-B002'')
   \<and> saves (snd (saveVendorBill ''VND001'' (sampleForm (Some [''VND001-P003'', ''VND001-P004'']))
          ''2025-11-03'' ''2025-11-03T10:00:00.000Z'' sampleState)) = saves sampleState + 1"
proof -
  let ?f = "sampleForm (Some [''VND001-P003'', ''VND001-P004''])"
  let ?r = "saveVendorBill ''VND001'' ?f ''2025-11-03'' ''2025-11-03T10:00:00.000Z'' sampleState"
  have h1: "findIndex (\<lambda>r. vendor_id r = Some ''VND001'') (cachedRecords sampleState) = Some 1"
    by code_simp
  have h3: "[''VND001-P003'', ''VND001-P004''] = (case selectedPhoneIds ?f of
                  Some ids \<Rightarrow> ids
                | None \<Rightarrow> map phone_id (filter (\<lambda>p. \<not> billed p)
                     (phones (cachedRecords sampleState ! 1))))"
    by code_simp
  have h4: "[''VND001-P003'', ''VND001-P004''] \<noteq> []"
    by simp
  have "editingBill sampleState = None"
    by code_simp
  then have h5: "\<forall>b. editingBill sampleState = Some b \<longrightarrow>
      (\<forall>x\<in>set (bills (cachedRecords sampleState ! 1)). vb_bill_id x \<noteq> b)"
    by simp
  have h6: "''VND001-B002'' =
      ''VND001'' @ ''-B'' @ padStart3 (showNat (length (bills (cachedRecords sampleState ! 1)) + 1))"
    by code_simp
  have h7: "(fst ?r, snd ?r) = ?r"
    by simp
  from saveVendorBill_creates_bill [OF h1 refl h3 h4 h5 h6 h7 refl]
  have "fst ?r = Inr (BillCreated ''VND001-B002'')" and "saves (snd ?r) = saves sampleState + 1"
    by blast+
  with h1 show ?thesis by blast
qed

text \<open>
  C2, as stated, fails: \<open>saveVendorBill\<close> does not look at the \<open>billed\<close> flag of the
  phones it is given. On the sample store, where \<open>VND001-P001\<close> is billed in
  \<open>VND001-B001\<close>, a form that names that phone is saved as a second bill and the store
  changes.
\<close>

theorem saveVendorBill_accepts_billed_phone:
  "billed (phones (cachedRecords sampleState ! 1) ! 0)
   \<and> phone_id (phones (cachedRecords sampleState ! 1) ! 0) = ''VND001-P001''
   \<and> fst (saveVendorBill ''VND001'' (sampleForm (Some [''VND001-P001'']))
          ''2025-11-03'' ''2025-11-03T10:00:00.000Z'' sampleState)
       = Inr (BillCreated ''VND001-B002'')
   \<and> cachedRecords (snd (saveVendorBill ''VND001'' (sampleForm (Some [''VND001-P001'']))
          ''2025-11-03'' ''2025-11-03T10:00:00.000Z'' sampleState))
       \<noteq> cachedRecords sampleState"
  by code_simp

text \<open>
  C2, amended. \<open>saveVendorBill\<close> fails and returns the state it was given - nothing is
  saved - when no record has the vendor identifier, and when the selection is
  empty: the hidden input holds the empty list, or it is missing and the vendor has no
  unbilled phone. A phone that is already billed is not a reason to fail.
\<close>

theorem saveVendorBill_fails_without_selection:
  "(findIndex (\<lambda>r. vendor_id r = Some vendorId) (cachedRecords s) = None
      \<longrightarrow> saveVendorBill vendorId form todayDate now s = (Inl VendorRecordNotFound, s))
   \<and> (\<forall>i. findIndex (\<lambda>r. vendor_id r = Some vendorId) (cachedRecords s) = Some i
         \<and> (case selectedPhoneIds form of
               Some ids \<Rightarrow> ids
             | None \<Rightarrow> map phone_id (filter (\<lambda>p. \<not> billed p) (phones (cachedRecords s ! i)))) = []
      \<longrightarrow> saveVendorBill vendorId form todayDate now s = (Inl NoPhonesSelected, s))"
  by (auto simp: saveVendorBill_def Let_def split: option.splits)

theorem saveVendorBill_fails_without_selection_witness:
  "findIndex (\<lambda>r. vendor_id r = Some ''VND001'') (cachedRecords sampleState) = Some 1
   \<and> selectedPhoneIds (sampleForm (Some [])) = Some []
   \<and> saveVendorBill ''VND001'' (sampleForm (Some [])) ''2025-11-03'' ''2025-11-03T10:00:00.000Z''
        sampleState = (Inl NoPhonesSelected, sampleState)
   \<and> findIndex (\<lambda>r. vendor_id r = Some ''VND007'') (cachedRecords sampleState) = None
   \<and> saveVendorBill ''VND007'' (sampleForm None) ''2025-11-03'' ''2025-11-03T10:00:00.000Z''
        sampleState = (Inl VendorRecordNotFound, sampleState)"
proof -
  have h1: "findIndex (\<lambda>r. vendor_id r = Some ''VND001'') (cachedRecords sampleState) = Some 1"
    by code_simp
  have h2: "selectedPhoneIds (sampleForm (Some [])) = Some []"
    by code_simp
  have h3: "findIndex (\<lambda>r. vendor_id r = Some ''VND007'') (cachedRecords sampleState) = None"
    by code_simp
  have a: "saveVendorBill ''VND001'' (sampleForm (Some [])) ''2025-11-03''
      ''2025-11-03T10:00:00.000Z'' sampleState = (Inl NoPhonesSelected, sampleState)"
    using saveVendorBill_fails_without_selection
      [of "''VND001''" sampleState "sampleForm (Some [])" "''2025-11-03''"
          "''2025-11-03T10:00:00.000Z''"] h1 h2
    by simp
  have b: "saveVendorBill ''VND007'' (sampleForm None) ''2025-11-03''
      ''2025-11-03T10:00:00.000Z'' sampleState = (Inl VendorRecordNotFound, sampleState)"
    using saveVendorBill_fails_without_selection
      [of "''VND007''" sampleState "sampleForm None" "''2025-11-03''"
          "''2025-11-03T10:00:00.000Z''"] h3
    by simp
  from h1 h2 a h3 b show ?thesis by blast
qed

text \<open>
  C8, as stated, fails in its last part: when the bill identifier under edit is not
  among the vendor's bills, \<open>saveVendorBill\<close> does not fail; it goes on to the
  creation branch. On the sample store, saving the form while \<open>VND001-B009\<close> is under
  edit appends the bill \<open>VND001-B002\<close> and marks the phone of the form as billed.
\<close>

theorem saveVendorBill_unknown_edit_creates:
  "editingBill (editingState ''VND001-B009'') = Some ''VND001-B009''
   \<and> ''VND001-B009'' \<notin> vb_bill_id ` set (bills (cachedRecords (editingState ''VND001-B009'') ! 1))
   \<and> fst (saveVendorBill ''VND001'' (sampleForm (Some [''VND001-P003'']))
          ''2025-11-03'' ''2025-11-03T10:00:00.000Z'' (editingState ''VND001-B009''))
       = Inr (BillCreated ''VND001-B002'')
   \<and> map vb_bill_id (bills (cachedRecords (snd (saveVendorBill ''VND001''
          (sampleForm (Some [''VND001-P003''])) ''2025-11-03'' ''2025-11-03T10:00:00.000Z''
          (editingState ''VND001-B009''))) ! 1))
       = [''VND001-B001'', ''VND001-B002'']
   \<and> status (phones (cachedRecords (snd (saveVendorBill ''VND001''
          (sampleForm (Some [''VND001-P003''])) ''2025-11-03'' ''2025-11-03T10:00:00.000Z''
          (editingState ''VND001-B009''))) ! 1) ! 2) = ''Billed''"
  by code_simp

text \<open>
  C8, amended. With a bill identifier under edit and a non-empty selection in the
  form: when the vendor has a bill with that identifier, \<open>saveVendorBill\<close> replaces
  the items, the three totals and \<open>updated_at\<close> of the first such bill, in place; the
  bill keeps its identifier and its phone list, the phones of the vendor and the other
  bills are as they were, and the store is saved once. When the vendor has no such
  bill, \<open>saveVendorBill\<close> does not fail: it does what it does with nothing under
  edit, which is to create a bill. (The lookup that reports \<open>Bill not found\<close> is the
  one of \<open>editVendorBill\<close>, before the form is opened.)
\<close>

theorem saveVendorBill_edit_in_place:
  assumes "findIndex (\<lambda>r. vendor_id r = Some vendorId) (cachedRecords s) = Some i"
    and "vendor = cachedRecords s ! i"
    and "(case selectedPhoneIds form of
            Some ids \<Rightarrow> ids
          | None \<Rightarrow> map phone_id (filter (\<lambda>p. \<not> billed p) (phones vendor))) \<noteq> []"
    and "editingBill s = Some billId"
  shows "(\<forall>k. findIndex (\<lambda>b. vb_bill_id b = billId) (bills vendor) = Some k \<longrightarrow>
            (\<exists>bill'. saveVendorBill vendorId form todayDate now s =
                 (Inr (BillUpdated billId),
                  s\<lparr>cachedRecords :=
                       (cachedRecords s)[i := vendor\<lparr>bills := (bills vendor)[k := bill']\<rparr>],
                    saves := saves s + 1, selectedPhonesForBilling := None\<rparr>)
              \<and> bill' = (bills vendor ! k)\<lparr>items := map collectItem (item_rows form),
                    subtotal := subtotal_text form, tax := taxAmount_text form,
                    grand_total := grandTotal_text form, updated_at := Some now\<rparr>
              \<and> vb_bill_id bill' = billId
              \<and> phone_ids bill' = phone_ids (bills vendor ! k)))
       \<and> (findIndex (\<lambda>b. vb_bill_id b = billId) (bills vendor) = None \<longrightarrow>
            saveVendorBill vendorId form todayDate now s =
              saveVendorBill vendorId form todayDate now (s\<lparr>selectedPhonesForBilling := None\<rparr>)
            \<and> fst (saveVendorBill vendorId form todayDate now s) =
                Inr (BillCreated (generateBillID vendorId (length (bills vendor) + 1))))"
proof (intro conjI allI impI)
  fix k
  assume k: "findIndex (\<lambda>b. vb_bill_id b = billId) (bills vendor) = Some k"
  let ?bill' = "(bills vendor ! k)\<lparr>items := map collectItem (item_rows form),
                    subtotal := subtotal_text form, tax := taxAmount_text form,
                    grand_total := grandTotal_text form, updated_at := Some now\<rparr>"
  have id: "vb_bill_id (bills vendor ! k) = billId"
    using findIndex_Some [OF k] by simp
  have "saveVendorBill vendorId form todayDate now s =
                 (Inr (BillUpdated billId),
                  s\<lparr>cachedRecords :=
                       (cachedRecords s)[i := vendor\<lparr>bills := (bills vendor)[k := ?bill']\<rparr>],
                    saves := saves s + 1, selectedPhonesForBilling := None\<rparr>)"
    unfolding saveVendorBill_found [OF assms(1,2) refl assms(3)]
    using assms(4) k by (simp add: updateBill_def saveRecords_def)
  with id show "\<exists>bill'. saveVendorBill vendorId form todayDate now s =
                 (Inr (BillUpdated billId),
                  s\<lparr>cachedRecords :=
                       (cachedRecords s)[i := vendor\<lparr>bills := (bills vendor)[k := bill']\<rparr>],
                    saves := saves s + 1, selectedPhonesForBilling := None\<rparr>)
              \<and> bill' = (bills vendor ! k)\<lparr>items := map collectItem (item_rows form),
                    subtotal := subtotal_text form, tax := taxAmount_text form,
                    grand_total := grandTotal_text form, updated_at := Some now\<rparr>
              \<and> vb_bill_id bill' = billId
              \<and> phone_ids bill' = phone_ids (bills vendor ! k)"
    by simp
next
  assume n: "findIndex (\<lambda>b. vb_bill_id b = billId) (bills vendor) = None"
  let ?s0 = "s\<lparr>selectedPhonesForBilling := None\<rparr>"
  have f0: "findIndex (\<lambda>r. vendor_id r = Some vendorId) (cachedRecords ?s0) = Some i"
    and v0: "vendor = cachedRecords ?s0 ! i"
    using assms(1,2) by simp_all
  have e0: "editingBill ?s0 = None"
    by (simp add: editingBill_def)
  show "saveVendorBill vendorId form todayDate now s =
      saveVendorBill vendorId form todayDate now ?s0"
    unfolding saveVendorBill_found [OF assms(1,2) refl assms(3)]
      saveVendorBill_found [OF f0 v0 refl assms(3)]
    using assms(4) n e0 by (simp add: saveRecords_def)
  show "fst (saveVendorBill vendorId form todayDate now s) =
      Inr (BillCreated (generateBillID vendorId (length (bills vendor) + 1)))"
    unfolding saveVendorBill_found [OF assms(1,2) refl assms(3)]
    using assms(4) n by simp
qed

theorem saveVendorBill_edit_in_place_witness:
  "findIndex (\<lambda>r. vendor_id r = Some ''VND001'') (cachedRecords (editingState ''VND001-B001''))
     = Some 1
   \<and> editingBill (editingState ''VND001-B001'') = Some ''VND001-B001''
   \<and> findIndex (\<lambda>b. vb_bill_id b = ''VND001-B001'')
        (bills (cachedRecords (editingState ''VND001-B001'') ! 1)) = Some 0
   \<and> fst (saveVendorBill ''VND001'' (sampleForm (Some [''VND001-P001'', ''VND001-P002'']))
          ''2025-11-03'' ''2025-11-03T10:00:00.000Z'' (editingState ''VND001-B001''))
       = Inr (BillUpdated ''VND001-B001'')
   \<and> findIndex (\<lambda>b. vb_bill_id b = ''VND001-B009'')
        (bills (cachedRecords (editingState ''VND001-B009'') ! 1)) = None
   \<and> fst (saveVendorBill ''VND001'' (sampleForm (Some [''VND001-P001'', ''VND001-P002'']))
          ''2025-11-03'' ''2025-11-03T10:00:00.000Z'' (editingState ''VND001-B009''))
       = Inr (BillCreated ''VND001-B002'')"
proof -
  let ?f = "sampleForm (Some [''VND001-P001'', ''VND001-P002''])"
  let ?s = "editingState ''VND001-B001''"
  let ?t = "editingState ''VND001-B009''"
  have h1: "findIndex (\<lambda>r. vendor_id r = Some ''VND001'') (cachedRecords ?s) = Some 1"
    by code_simp
  have h3: "(case selectedPhoneIds ?f of
            Some ids \<Rightarrow> ids
          | None \<Rightarrow> map phone_id (filter (\<lambda>p. \<not> billed p) (phones (cachedRecords ?s ! 1)))) \<noteq> []"
    by code_simp
  have h4: "editingBill ?s = Some ''VND001-B001''"
    by code_simp
  have h5: "findIndex (\<lambda>b. vb_bill_id b = ''VND001-B001'') (bills (cachedRecords ?s ! 1)) = Some 0"
    by code_simp
  have g1: "findIndex (\<lambda>r. vendor_id r = Some ''VND001'') (cachedRecords ?t) = Some 1"
    by code_simp
  have g3: "(case selectedPhoneIds ?f of
            Some ids \<Rightarrow> ids
          | None \<Rightarrow> map phone_id (filter (\<lambda>p. \<not> billed p) (phones (cachedRecords ?t ! 1)))) \<noteq> []"
    by code_simp
  have g4: "editingBill ?t = Some ''VND001-B009''"
    by code_simp
  have g5: "findIndex (\<lambda>b. vb_bill_id b = ''VND001-B009'') (bills (cachedRecords ?t ! 1)) = None"
    by code_simp
  have g6: "generateBillID ''VND001'' (length (bills (cachedRecords ?t ! 1)) + 1) = ''VND001-B002''"
    by code_simp
  have a: "fst (saveVendorBill ''VND001'' ?f ''2025-11-03'' ''2025-11-03T10:00:00.000Z'' ?s)
       = Inr (BillUpdated ''VND001-B001'')"
    using saveVendorBill_edit_in_place [OF h1 refl h3 h4,
        of "''2025-11-03''" "''2025-11-03T10:00:00.000Z''"] h5
    by auto
  have "fst (saveVendorBill ''VND001'' ?f ''2025-11-03'' ''2025-11-03T10:00:00.000Z'' ?t)
       = Inr (BillCreated (generateBillID ''VND001'' (length (bills (cachedRecords ?t ! 1)) + 1)))"
    using saveVendorBill_edit_in_place [OF g1 refl g3 g4,
        of "''2025-11-03''" "''2025-11-03T10:00:00.000Z''"] g5
    by blast
  then have b: "fst (saveVendorBill ''VND001'' ?f ''2025-11-03'' ''2025-11-03T10:00:00.000Z'' ?t)
       = Inr (BillCreated ''VND001-B002'')"
    unfolding g6 .
  from h1 h4 h5 a g5 b show ?thesis by blast
qed

section \<open>Properties of line items and totals\<close>

lemma toDouble_not_NaN: "toDouble x \<noteq> NaN"
  by (simp add: toDouble_def Let_def signedInfinity_def)

lemma orNumber_toDouble_0: "orNumber (toDouble x) (Finite 0) = toDouble x"
  using toDouble_not_NaN [of x] by (cases "toDouble x") (auto simp: orNumber_def)

lemma ilog2_nonneg: "0 \<le> ilog2 n"
  by (induction n rule: ilog2.induct) (subst ilog2.simps, simp)

lemma ilog2_lower: "1 \<le> n \<Longrightarrow> 2 ^ nat (ilog2 n) \<le> n"
proof (induction n rule: ilog2.induct)
  case (1 n)
  show ?case
  proof (cases "n < 2")
    case True
    with "1.prems" show ?thesis
      by (subst ilog2.simps) simp
  next
    case False
    then have h: "1 \<le> n div 2"
      by simp
    have "2 ^ nat (ilog2 (n div 2) + 1) = 2 * 2 ^ nat (ilog2 (n div 2))"
      using ilog2_nonneg [of "n div 2"] by (simp add: nat_add_distrib)
    also have "\<dots> \<le> 2 * (n div 2)"
      using "1.IH" [OF False h] by simp
    also have "\<dots> \<le> n"
      by simp
    finally show ?thesis
      using False by (subst ilog2.simps) simp
  qed
qed

lemma pow2_pos: "0 < pow2 e"
  by (simp add: pow2_def)

lemma pow2_powi: "pow2 e = 2 powi e"
  by (simp add: pow2_def power_int_def power_inverse field_simps)

lemma pow2_mono: "u \<le> e \<Longrightarrow> pow2 u \<le> pow2 e"
  unfolding pow2_powi by (rule power_int_increasing) simp_all

lemma roundHalfEven_ge_floor: "\<lfloor>m\<rfloor> \<le> roundHalfEven m"
  by (simp add: roundHalfEven_def Let_def)

lemma floorLog2_of_int:
  assumes "1 \<le> k"
  shows "floorLog2 (of_int k) = ilog2 k" and "pow2 (ilog2 k) \<le> of_int k"
proof -
  have one: "ilog2 1 = 0"
    by (subst ilog2.simps) simp
  have "(of_int (2 ^ nat (ilog2 k)) :: rat) \<le> of_int k"
    using ilog2_lower [OF assms] by (simp only: of_int_le_iff)
  then show le: "pow2 (ilog2 k) \<le> of_int k"
    using ilog2_nonneg [of k] by (simp add: pow2_def)
  then show "floorLog2 (of_int k) = ilog2 k"
    by (simp add: floorLog2_def one Let_def not_less [symmetric])
qed

lemma toDouble_of_int_nonzero:
  assumes "k \<noteq> 0"
  shows "toDouble (of_int k) \<noteq> Finite 0"
proof -
  let ?a = "\<bar>of_int k :: rat\<bar>"
  let ?e = "floorLog2 ?a"
  let ?u = "max (?e - 52) (- 1074)"
  let ?n = "roundHalfEven (?a / pow2 ?u)"
  from assms have k: "1 \<le> \<bar>k\<bar>"
    by simp
  have a: "?a = of_int \<bar>k\<bar>"
    by simp
  have e: "?e = ilog2 \<bar>k\<bar>" and le: "pow2 (ilog2 \<bar>k\<bar>) \<le> ?a"
    unfolding a using floorLog2_of_int [OF k] by simp_all
  have "?u \<le> ?e"
    unfolding e using ilog2_nonneg [of "\<bar>k\<bar>"] by simp
  from pow2_mono [OF this] le e have "pow2 ?u \<le> ?a"
    by simp
  then have "1 \<le> ?a / pow2 ?u"
    using pow2_pos [of ?u] by (simp add: le_divide_eq)
  then have "1 \<le> \<lfloor>?a / pow2 ?u\<rfloor>"
    by (simp add: le_floor_iff)
  with roundHalfEven_ge_floor [of "?a / pow2 ?u"] have "1 \<le> ?n"
    by linarith
  then have "0 < (of_int ?n :: rat) * pow2 ?u"
    using pow2_pos [of ?u] by simp
  then have nz: "(of_int ?n :: rat) * pow2 ?u \<noteq> 0"
    by (metis less_irrefl)
  show ?thesis
    unfolding toDouble_def Let_def signedInfinity_def using assms nz
    by (simp only: of_int_eq_0_iff if_False number.distinct number.inject neg_equal_0_iff_equal
        split: if_split) simp
qed

lemma orNumber_toDouble_of_int:
  "orNumber (toDouble (of_int k)) (Finite 1) = (if k = 0 then Finite 1 else toDouble (of_int k))"
proof (cases "k = 0")
  case True
  then show ?thesis
    by (simp add: toDouble_def orNumber_def)
next
  case False
  with toDouble_of_int_nonzero [OF False] toDouble_not_NaN [of "of_int k"] show ?thesis
    by (cases "toDouble (of_int k)") (auto simp: orNumber_def)
qed

lemma orNumber_NaN: "orNumber NaN d = d"
  by (simp add: orNumber_def)

lemma lineTotal_eq:
  "lineTotal priceValue qtyValue =
      fmul (case priceValue of None \<Rightarrow> Finite 0 | Some p \<Rightarrow> toDouble p)
           (case qtyValue of
              None \<Rightarrow> Finite 1
            | Some q \<Rightarrow> if q = 0 then Finite 1 else toDouble (of_int q))"
  by (simp add: lineTotal_def parseFloatValue_def parseIntValue_def orNumber_toDouble_0
      orNumber_toDouble_of_int orNumber_NaN split: option.splits)

text \<open>
  C9, as stated, fails: nothing is clamped. A price of \<open>-5\<close> with quantity 2 gives
  the total \<open>-10\<close> where the clamped total is 0, and a price of 2 with quantity
  \<open>-3\<close> gives \<open>-6\<close> where the clamped total is 2; the item that a save handler
  collects from such a row has the negative price and the negative total.
\<close>

theorem lineTotal_negative_not_clamped:
  "lineTotal (Some (- 5)) (Some 2) = Finite (- 10)
   \<and> clampedLineTotal (- 5) 2 = Finite 0
   \<and> lineTotal (Some 2) (Some (- 3)) = Finite (- 6)
   \<and> clampedLineTotal 2 (- 3) = Finite 2
   \<and> price (collectItem (item_rows (updateItemTotal 0
        (oneRowForm (Some (- 5)) (Some 2) (Some 0) None)) ! 0)) = Finite (- 5)
   \<and> line_total (collectItem (item_rows (updateItemTotal 0
        (oneRowForm (Some (- 5)) (Some 2) (Some 0) None)) ! 0)) = Finite (- 10)"
  by code_simp

text \<open>
  C9, amended. The total of a row is the product, in double arithmetic, of the price
  and the quantity read from the two inputs, where a price that does not parse counts
  as 0 and a quantity that does not parse, or is 0, counts as 1; \<open>updateItemTotal\<close>
  shows it with \<open>toFixed(2)\<close>, which rounds the double that the product is to two
  decimals. For a price that is not negative and a quantity of at least 1 this is the
  clamped total; a negative price and a negative quantity are multiplied as they are
  (the \<open>min\<close> attributes of the two inputs are the only floor, and the code does not
  read them).
\<close>

theorem lineTotal_defaults:
  "lineTotal priceValue qtyValue =
      fmul (case priceValue of None \<Rightarrow> Finite 0 | Some p \<Rightarrow> toDouble p)
           (case qtyValue of
              None \<Rightarrow> Finite 1
            | Some q \<Rightarrow> if q = 0 then Finite 1 else toDouble (of_int q))
   \<and> (\<forall>p q. 0 \<le> p \<and> 1 \<le> q \<longrightarrow> lineTotal (Some p) (Some q) = clampedLineTotal p q)
   \<and> (\<forall>p. lineTotal (Some p) (Some 0) = fmul (toDouble p) (Finite 1)
          \<and> lineTotal (Some p) None = fmul (toDouble p) (Finite 1))
   \<and> (\<forall>p q. q < 0 \<longrightarrow> lineTotal (Some p) (Some q) = fmul (toDouble p) (toDouble (of_int q)))
   \<and> (\<forall>i<length (item_rows form).
         item_total (item_rows (updateItemTotal i form) ! i) =
           toFixed2 (lineTotal (item_price (item_rows form ! i)) (item_qty (item_rows form ! i))))"
proof -
  have a: "lineTotal priceValue qtyValue =
      fmul (case priceValue of None \<Rightarrow> Finite 0 | Some p \<Rightarrow> toDouble p)
           (case qtyValue of
              None \<Rightarrow> Finite 1
            | Some q \<Rightarrow> if q = 0 then Finite 1 else toDouble (of_int q))"
    by (rule lineTotal_eq)
  have b: "\<forall>p q. 0 \<le> p \<and> 1 \<le> q \<longrightarrow> lineTotal (Some p) (Some q) = clampedLineTotal p q"
    by (auto simp: lineTotal_eq clampedLineTotal_def max_def)
  have c: "\<forall>p. lineTotal (Some p) (Some 0) = fmul (toDouble p) (Finite 1)
          \<and> lineTotal (Some p) None = fmul (toDouble p) (Finite 1)"
    by (simp add: lineTotal_eq)
  have d: "\<forall>p q. q < 0 \<longrightarrow> lineTotal (Some p) (Some q) = fmul (toDouble p) (toDouble (of_int q))"
    by (simp add: lineTotal_eq)
  have e: "\<forall>i<length (item_rows form).
         item_total (item_rows (updateItemTotal i form) ! i) =
           toFixed2 (lineTotal (item_price (item_rows form ! i)) (item_qty (item_rows form ! i)))"
    by (simp add: updateItemTotal_def updateBillTotals_def Let_def split: prod.splits)
  from a b c d e show ?thesis by (intro conjI)
qed

theorem lineTotal_defaults_witness:
  "(0::rat) \<le> 1300 \<and> (1::int) \<le> 2
   \<and> lineTotal (Some 1300) (Some 2) = clampedLineTotal 1300 2
   \<and> clampedLineTotal 1300 2 = Finite 2600
   \<and> (- 3::int) < 0 \<and> lineTotal (Some 2) (Some (- 3)) = fmul (toDouble 2) (toDouble (of_int (- 3)))
   \<and> 0 < length (item_rows (oneRowForm (Some (1005 / 1000)) (Some 1) None None))
   \<and> item_total (item_rows (updateItemTotal 0
        (oneRowForm (Some (1005 / 1000)) (Some 1) None None)) ! 0) = Finite 1"
proof -
  let ?g = "oneRowForm (Some (1005 / 1000)) (Some 1) None None"
  note t = lineTotal_defaults [of "Some 1300" "Some 2" ?g]
  from t have t2: "\<forall>p q. 0 \<le> p \<and> 1 \<le> q \<longrightarrow> lineTotal (Some p) (Some q) = clampedLineTotal p q"
    by blast
  from t have t4: "\<forall>p q. q < 0 \<longrightarrow> lineTotal (Some p) (Some q) = fmul (toDouble p) (toDouble (of_int q))"
    by blast
  from t have t5: "\<forall>i<length (item_rows ?g).
         item_total (item_rows (updateItemTotal i ?g) ! i) =
           toFixed2 (lineTotal (item_price (item_rows ?g ! i)) (item_qty (item_rows ?g ! i)))"
    by blast
  have h1: "(0::rat) \<le> 1300 \<and> (1::int) \<le> 2"
    by simp
  have a: "lineTotal (Some 1300) (Some 2) = clampedLineTotal 1300 2"
    using t2 [rule_format, OF h1] .
  have b: "clampedLineTotal 1300 2 = Finite 2600"
    by code_simp
  have h2: "(- 3::int) < 0"
    by simp
  have c: "lineTotal (Some 2) (Some (- 3)) = fmul (toDouble 2) (toDouble (of_int (- 3)))"
    using t4 [rule_format, OF h2] .
  have l: "0 < length (item_rows ?g)"
    by (simp add: oneRowForm_def)
  have r: "toFixed2 (lineTotal (item_price (item_rows ?g ! 0)) (item_qty (item_rows ?g ! 0)))
      = Finite 1"
    by code_simp
  have d: "item_total (item_rows (updateItemTotal 0 ?g) ! 0) = Finite 1"
    using t5 [rule_format, OF l] r by (rule trans)
  from h1 a b h2 c l d show ?thesis by blast
qed

lemma billTotals_eq:
  "billTotals form =
     (foldl fadd (Finite 0) (map (\<lambda>row. orNumber (item_total row) (Finite 0)) (item_rows form)),
      fdiv100 (fmul
        (foldl fadd (Finite 0) (map (\<lambda>row. orNumber (item_total row) (Finite 0)) (item_rows form)))
        (case taxPercent form of None \<Rightarrow> Finite 0 | Some t \<Rightarrow> toDouble t)),
      fadd (foldl fadd (Finite 0) (map (\<lambda>row. orNumber (item_total row) (Finite 0)) (item_rows form)))
        (fdiv100 (fmul
          (foldl fadd (Finite 0) (map (\<lambda>row. orNumber (item_total row) (Finite 0)) (item_rows form)))
          (case taxPercent form of None \<Rightarrow> Finite 0 | Some t \<Rightarrow> toDouble t))))"
proof -
  have "orNumber (parseFloatValue (taxPercent form)) (Finite 0)
      = (case taxPercent form of None \<Rightarrow> Finite 0 | Some t \<Rightarrow> toDouble t)"
    by (simp add: parseFloatValue_def orNumber_NaN orNumber_toDouble_0 split: option.splits)
  then show ?thesis
    by (simp add: billTotals_def Let_def foldl_map)
qed

text \<open>
  C6, as stated, fails. \<open>saveVendorBill\<close> stores what it reads back from the displayed
  texts, each rounded to two decimals on its own. With one row of price 4.5 and
  quantity 1 and a tax of 5 percent, \<open>updateBillTotals\<close> computes the tax 0.225 and the
  grand total 4.725 as doubles, and the stored bill has subtotal 4.50, tax 0.23 and
  grand total 4.72: the grand total is not the subtotal plus the tax, which is 4.73,
  and the tax is not the subtotal times the tax percentage over 100. With two rows of
  prices 0.1 and 0.2 the stored subtotal is 0.3, which is not the sum 0.1 + 0.2 of the
  stored line totals as the code adds them.
\<close>

theorem saveVendorBill_stores_displayed_amounts:
  "billTotals (updateItemTotal 0
      (oneRowForm (Some (45 / 10)) (Some 1) (Some 5) (Some [''VND001-P003''])))
     = (Finite (9 / 2), Finite (8106479329266893 / 36028797018963968),
        Finite (2659938529915699 / 562949953421312))
   \<and> billSavedFrom (updateItemTotal 0
        (oneRowForm (Some (45 / 10)) (Some 1) (Some 5) (Some [''VND001-P003''])))
     = \<lparr>vb_bill_id = ''VND001-B002'', vb_bill_number = ''VND001-B002'',
        vb_date = ''2025-11-03'', phone_ids = [''VND001-P003''],
        items = [\<lparr>item = ''Service Charge'', breakout = ''All Phones'', price = Finite (9 / 2),
                   quantity = Finite 1, line_total = Finite (9 / 2)\<rparr>],
        subtotal = Finite (9 / 2),
        tax = Finite (8286623314361713 / 36028797018963968),
        grand_total = Finite (5314247560297185 / 1125899906842624),
        saved_at = Some ''2025-11-03T10:00:00.000Z'', updated_at = None\<rparr>
   \<and> toDouble (23 / 100) = Finite (8286623314361713 / 36028797018963968)
   \<and> toDouble (472 / 100) = Finite (5314247560297185 / 1125899906842624)
   \<and> fadd (Finite (9 / 2)) (Finite (8286623314361713 / 36028797018963968)) = toDouble (473 / 100)
   \<and> toDouble (473 / 100) \<noteq> Finite (5314247560297185 / 1125899906842624)
   \<and> fdiv100 (fmul (Finite (9 / 2)) (toDouble 5))
       \<noteq> Finite (8286623314361713 / 36028797018963968)
   \<and> subtotal (billSavedFrom (twoRowForm (1 / 10) (2 / 10) (Some 0) (Some [''VND001-P003''])))
       = toDouble (3 / 10)
   \<and> map line_total (items (billSavedFrom
        (twoRowForm (1 / 10) (2 / 10) (Some 0) (Some [''VND001-P003'']))))
       = [toDouble (1 / 10), toDouble (2 / 10)]
   \<and> fadd (toDouble (1 / 10)) (toDouble (2 / 10)) \<noteq> toDouble (3 / 10)"
  by code_simp

text \<open>
  C6, amended. \<open>updateBillTotals\<close> computes in double arithmetic the subtotal as the
  sum, from 0 and in the order of the rows, of the numbers shown in the total cells
  (a cell that is not a number counts as 0), the tax as subtotal times tax percentage
  over 100 (a tax input that does not parse counts as 0), and the grand total as
  subtotal plus tax, and shows each with \<open>toFixed(2)\<close>. A bill that
  \<open>saveVendorBill\<close> writes from a form whose totals are up to date - a new bill or
  an edited one - holds the shown numbers: its line totals are the numbers of the
  cells, its subtotal is the two-decimal rounding of the double sum of its line
  totals, and its tax and grand total are the two-decimal roundings of the computed
  tax and of the computed grand total, each rounded on its own.
\<close>

theorem saveVendorBill_stores_rounded_totals:
  assumes "findIndex (\<lambda>r. vendor_id r = Some vendorId) (cachedRecords s) = Some i"
    and "vendor = cachedRecords s ! i"
    and "(case selectedPhoneIds form of
            Some ids \<Rightarrow> ids
          | None \<Rightarrow> map phone_id (filter (\<lambda>p. \<not> billed p) (phones vendor))) \<noteq> []"
    and "form = updateBillTotals form0"
    and "(sub, taxAmount, grandTotal) = billTotals form0"
    and "(res, s') = saveVendorBill vendorId form todayDate now s"
    and "vendor' = cachedRecords s' ! i"
  shows "sub = foldl fadd (Finite 0)
            (map (\<lambda>row. orNumber (item_total row) (Finite 0)) (item_rows form0))
     \<and> taxAmount = fdiv100 (fmul sub
            (case taxPercent form0 of None \<Rightarrow> Finite 0 | Some t \<Rightarrow> toDouble t))
     \<and> grandTotal = fadd sub taxAmount
     \<and> (\<exists>k<length (bills vendor').
           (res = Inr (BillCreated (vb_bill_id (bills vendor' ! k)))
              \<or> res = Inr (BillUpdated (vb_bill_id (bills vendor' ! k))))
           \<and> subtotal (bills vendor' ! k) = toFixed2 sub
           \<and> tax (bills vendor' ! k) = toFixed2 taxAmount
           \<and> grand_total (bills vendor' ! k) = toFixed2 grandTotal
           \<and> map line_total (items (bills vendor' ! k))
               = map (\<lambda>row. orNumber (item_total row) (Finite 0)) (item_rows form0)
           \<and> subtotal (bills vendor' ! k)
               = toFixed2 (foldl fadd (Finite 0) (map line_total (items (bills vendor' ! k)))))"
proof -
  let ?cells = "map (\<lambda>row. orNumber (item_total row) (Finite 0)) (item_rows form0)"
  have i: "i < length (cachedRecords s)"
    using findIndex_Some [OF assms(1)] by simp
  from assms(5) have tot: "sub = foldl fadd (Finite 0) ?cells"
    "taxAmount = fdiv100 (fmul sub
        (case taxPercent form0 of None \<Rightarrow> Finite 0 | Some t \<Rightarrow> toDouble t))"
    "grandTotal = fadd sub taxAmount"
    by (simp_all add: billTotals_eq)
  have texts: "subtotal_text form = toFixed2 sub" "taxAmount_text form = toFixed2 taxAmount"
    "grandTotal_text form = toFixed2 grandTotal"
    using assms(4) assms(5) [symmetric] by (simp_all add: updateBillTotals_def)
  have rows: "item_rows form = item_rows form0"
    using assms(4) by (simp add: updateBillTotals_def split: prod.splits)
  have lt: "map line_total (map collectItem (item_rows form)) = ?cells"
    by (simp add: rows collectItem_def comp_def)
  let ?its = "map collectItem (item_rows form)"
  let ?ex = "case editingBill s of
              None \<Rightarrow> None
            | Some billId \<Rightarrow>
                map_option (Pair billId) (findIndex (\<lambda>b. vb_bill_id b = billId) (bills vendor))"
  note found = saveVendorBill_found [OF assms(1,2) refl assms(3), of todayDate now]
  have written: "\<exists>k<length (bills vendor').
           (res = Inr (BillCreated (vb_bill_id (bills vendor' ! k)))
              \<or> res = Inr (BillUpdated (vb_bill_id (bills vendor' ! k))))
           \<and> subtotal (bills vendor' ! k) = toFixed2 sub
           \<and> tax (bills vendor' ! k) = toFixed2 taxAmount
           \<and> grand_total (bills vendor' ! k) = toFixed2 grandTotal
           \<and> items (bills vendor' ! k) = ?its"
  proof (cases ?ex)
    case None
    let ?id = "generateBillID vendorId (length (bills vendor) + 1)"
    let ?nb = "newBillOf ?id todayDate
        (case selectedPhoneIds form of
            Some ids \<Rightarrow> ids
          | None \<Rightarrow> map phone_id (filter (\<lambda>p. \<not> billed p) (phones vendor)))
        ?its (subtotal_text form) (taxAmount_text form) (grandTotal_text form) now"
    from found None assms(6) have res: "res = Inr (BillCreated ?id)"
      and s': "s' = (saveRecords ((cachedRecords s)[i := createBill ?id ?nb vendor]) s)
         \<lparr>selectedPhonesForBilling := None\<rparr>"
      by simp_all
    from s' i assms(7) have v': "bills vendor' = bills vendor @ [?nb]"
      by (simp add: saveRecords_def createBill_def)
    have k: "length (bills vendor) < length (bills vendor')"
      and nb: "bills vendor' ! length (bills vendor) = ?nb"
      using v' by simp_all
    have "vb_bill_id ?nb = ?id" "subtotal ?nb = toFixed2 sub" "tax ?nb = toFixed2 taxAmount"
      "grand_total ?nb = toFixed2 grandTotal" "items ?nb = ?its"
      by (simp_all add: newBillOf_def texts)
    with res k nb show ?thesis
      by (intro exI [of _ "length (bills vendor)"]) simp
  next
    case (Some a)
    then obtain billId k where a: "a = (billId, k)"
      and e: "editingBill s = Some billId"
      and f: "findIndex (\<lambda>b. vb_bill_id b = billId) (bills vendor) = Some k"
      by (cases a) (auto split: option.splits)
    have k: "k < length (bills vendor)" and id: "vb_bill_id (bills vendor ! k) = billId"
      using findIndex_Some [OF f] by simp_all
    let ?ub = "updateBill k ?its (subtotal_text form) (taxAmount_text form)
        (grandTotal_text form) now vendor"
    from found Some a assms(6) have res: "res = Inr (BillUpdated billId)"
      and s': "s' = (saveRecords ((cachedRecords s)[i := ?ub]) s)
         \<lparr>selectedPhonesForBilling := None\<rparr>"
      by simp_all
    from s' i assms(7) have v': "vendor' = ?ub"
      by (simp add: saveRecords_def)
    have len: "k < length (bills vendor')"
      using v' k by (simp add: updateBill_def)
    have "vb_bill_id (bills vendor' ! k) = billId"
      "subtotal (bills vendor' ! k) = toFixed2 sub"
      "tax (bills vendor' ! k) = toFixed2 taxAmount"
      "grand_total (bills vendor' ! k) = toFixed2 grandTotal"
      "items (bills vendor' ! k) = ?its"
      using v' k id by (simp_all add: updateBill_def texts)
    with res len show ?thesis
      by (intro exI [of _ k]) simp
  qed
  then obtain k where k: "k < length (bills vendor')"
    and r: "res = Inr (BillCreated (vb_bill_id (bills vendor' ! k)))
              \<or> res = Inr (BillUpdated (vb_bill_id (bills vendor' ! k)))"
    and st: "subtotal (bills vendor' ! k) = toFixed2 sub"
    and tx: "tax (bills vendor' ! k) = toFixed2 taxAmount"
    and gt: "grand_total (bills vendor' ! k) = toFixed2 grandTotal"
    and it: "items (bills vendor' ! k) = ?its"
    by blast
  have l: "map line_total (items (bills vendor' ! k)) = ?cells"
    unfolding it by (rule lt)
  have sm: "subtotal (bills vendor' ! k)
      = toFixed2 (foldl fadd (Finite 0) (map line_total (items (bills vendor' ! k))))"
    unfolding l st tot(1) ..
  from k r st tx gt l sm
  have "\<exists>k<length (bills vendor').
           (res = Inr (BillCreated (vb_bill_id (bills vendor' ! k)))
              \<or> res = Inr (BillUpdated (vb_bill_id (bills vendor' ! k))))
           \<and> subtotal (bills vendor' ! k) = toFixed2 sub
           \<and> tax (bills vendor' ! k) = toFixed2 taxAmount
           \<and> grand_total (bills vendor' ! k) = toFixed2 grandTotal
           \<and> map line_total (items (bills vendor' ! k)) = ?cells
           \<and> subtotal (bills vendor' ! k)
               = toFixed2 (foldl fadd (Finite 0) (map line_total (items (bills vendor' ! k))))"
    by blast
  with tot show ?thesis by blast
qed

theorem saveVendorBill_stores_rounded_totals_witness:
  "findIndex (\<lambda>r. vendor_id r = Some ''VND001'') (cachedRecords sampleState) = Some 1
   \<and> billTotals (sampleForm (Some [''VND001-P003''])) = (Finite 1300, Finite 0, Finite 1300)
   \<and> toFixed2 (Finite 1300) = Finite 1300
   \<and> (\<exists>k<length (bills (cachedRecords (snd (saveVendorBill ''VND001''
          (updateBillTotals (sampleForm (Some [''VND001-P003''])))
          ''2025-11-03'' ''2025-11-03T10:00:00.000Z'' sampleState)) ! 1)).
         subtotal (bills (cachedRecords (snd (saveVendorBill ''VND001''
          (updateBillTotals (sampleForm (Some [''VND001-P003''])))
          ''2025-11-03'' ''2025-11-03T10:00:00.000Z'' sampleState)) ! 1) ! k)
            = toFixed2 (Finite 1300)
       \<and> grand_total (bills (cachedRecords (snd (saveVendorBill ''VND001''
          (updateBillTotals (sampleForm (Some [''VND001-P003''])))
          ''2025-11-03'' ''2025-11-03T10:00:00.000Z'' sampleState)) ! 1) ! k)
            = toFixed2 (Finite 1300))"
proof -
  let ?g = "sampleForm (Some [''VND001-P003''])"
  let ?f = "updateBillTotals ?g"
  let ?r = "saveVendorBill ''VND001'' ?f ''2025-11-03'' ''2025-11-03T10:00:00.000Z'' sampleState"
  have h1: "findIndex (\<lambda>r. vendor_id r = Some ''VND001'') (cachedRecords sampleState) = Some 1"
    by code_simp
  have h3: "(case selectedPhoneIds ?f of
            Some ids \<Rightarrow> ids
          | None \<Rightarrow> map phone_id (filter (\<lambda>p. \<not> billed p)
               (phones (cachedRecords sampleState ! 1)))) \<noteq> []"
    by code_simp
  have h5: "(Finite 1300, Finite 0, Finite 1300) = billTotals ?g"
    by code_simp
  have h6: "(fst ?r, snd ?r) = ?r"
    by simp
  have h7: "toFixed2 (Finite 1300) = Finite 1300"
    by code_simp
  from saveVendorBill_stores_rounded_totals [OF h1 refl h3 refl h5 h6 refl]
  have "\<exists>k<length (bills (cachedRecords (snd ?r) ! 1)).
         subtotal (bills (cachedRecords (snd ?r) ! 1) ! k) = toFixed2 (Finite 1300)
       \<and> grand_total (bills (cachedRecords (snd ?r) ! 1) ! k) = toFixed2 (Finite 1300)"
    by blast
  with h1 h5 [symmetric] h7 show ?thesis by blast
qed


section \<open>Properties of the warranty date\<close>

lemma daysInMonth_bounds: "28 \<le> daysInMonth y m \<and> daysInMonth y m \<le> 31"
  by (simp add: daysInMonth_def)

lemma setMonthPlus_fits:
  assumes "validDate d" and "m0 = month d - 1 + k"
    and "day d \<le> daysInMonth (year d + m0 div 12) (m0 mod 12 + 1)"
  shows "setMonthPlus k d = \<lparr>year = year d + m0 div 12, month = m0 mod 12 + 1, day = day d\<rparr>"
    and "validDate (setMonthPlus k d)"
    and "plusCalendarMonths d k (setMonthPlus k d)"
proof -
  show r: "setMonthPlus k d = \<lparr>year = year d + m0 div 12, month = m0 mod 12 + 1, day = day d\<rparr>"
    using assms(2,3) by (simp add: setMonthPlus_def Let_def)
  from assms(1) have m: "1 \<le> month d" and dd: "1 \<le> day d"
    by (simp_all add: validDate_def)
  show "validDate (setMonthPlus k d)"
    unfolding r using assms(3) dd by (simp add: validDate_def)
  have "(year d + m0 div 12) * 12 + (m0 mod 12 + 1) = year d * 12 + m0 + 1"
    by (simp add: algebra_simps)
  also have "\<dots> = year d * 12 + month d + k"
    using m assms(2) by simp
  finally show "plusCalendarMonths d k (setMonthPlus k d)"
    unfolding r by (simp add: plusCalendarMonths_def)
qed

lemma setMonthPlus_overflows:
  assumes "validDate d" and "m0 = month d - 1 + k"
    and "\<not> day d \<le> daysInMonth (year d + m0 div 12) (m0 mod 12 + 1)"
  shows "setMonthPlus k d =
      \<lparr>year = year d + m0 div 12, month = m0 mod 12 + 2,
       day = day d - daysInMonth (year d + m0 div 12) (m0 mod 12 + 1)\<rparr>"
    and "validDate (setMonthPlus k d)"
    and "year (setMonthPlus k d) * 12 + month (setMonthPlus k d) = year d * 12 + month d + k + 1"
proof -
  let ?y = "year d + m0 div 12" and ?m = "m0 mod 12 + 1"
  from assms(1) have m: "1 \<le> month d" and d31: "day d \<le> 31"
    using daysInMonth_bounds [of "year d" "month d"] by (simp_all add: validDate_def)
  from assms(3) d31 have short: "daysInMonth ?y ?m < 31"
    by simp
  then have m12: "?m \<noteq> 12"
    by (auto simp: daysInMonth_def)
  from short have next31: "daysInMonth ?y (?m + 1) = 31"
    by (auto simp: daysInMonth_def split: if_splits)
  have lt: "m0 mod 12 < 11"
    using m12 by presburger
  show r: "setMonthPlus k d =
      \<lparr>year = ?y, month = m0 mod 12 + 2, day = day d - daysInMonth ?y ?m\<rparr>"
    using assms(2,3) m12 lt by (simp add: setMonthPlus_def Let_def)
  have "1 \<le> day d - daysInMonth ?y ?m" "day d - daysInMonth ?y ?m \<le> 3"
    using assms(3) d31 daysInMonth_bounds [of ?y ?m] by simp_all
  then show "validDate (setMonthPlus k d)"
    unfolding r using next31 lt by (simp add: validDate_def)
  have "?y * 12 + (m0 mod 12 + 2) = year d * 12 + m0 + 2"
    by (simp add: algebra_simps)
  also have "\<dots> = year d * 12 + month d + k + 1"
    using m assms(2) by simp
  finally show "year (setMonthPlus k d) * 12 + month (setMonthPlus k d)
      = year d * 12 + month d + k + 1"
    unfolding r by simp
qed

text \<open>
  C7, as stated, fails for a day that the month three or six months on does not
  have: from 2025-11-30 with a period of 3 the result is 2026-03-02, which is four
  months on in the count of months and on another day of the month.
\<close>

theorem calculateWarrantyEndDate_runs_over:
  "calculateWarrantyEndDate \<lparr>year = 2025, month = 11, day = 30\<rparr> ''3''
     = Some \<lparr>year = 2026, month = 3, day = 2\<rparr>
   \<and> validDate \<lparr>year = 2025, month = 11, day = 30\<rparr>
   \<and> \<not> plusCalendarMonths \<lparr>year = 2025, month = 11, day = 30\<rparr> 3
         \<lparr>year = 2026, month = 3, day = 2\<rparr>"
  by code_simp

text \<open>
  C7, amended. For every date of the calendar, the period is 6 months when the
  warranty value is \<open>6\<close> or \<open>6 months\<close> and 3 months for any other value, and the
  result is a date of the calendar. When the month that many months on (the year
  carried) has the day of the month - always so up to the 28th - the result is
  that day of that month: the date plus exactly 3 or 6 calendar months. Otherwise the
  day runs over into the month after it: the result is one month further on, on the
  day left after the days of the shorter month.
\<close>

theorem calculateWarrantyEndDate_months:
  assumes "validDate d"
    and "k = (if w = ''6'' \<or> w = ''6 months'' then 6 else 3)"
    and "m0 = month d - 1 + k"
    and "len = daysInMonth (year d + m0 div 12) (m0 mod 12 + 1)"
  shows "\<exists>r. calculateWarrantyEndDate d w = Some r \<and> validDate r
     \<and> (day d \<le> 28 \<longrightarrow> plusCalendarMonths d k r)
     \<and> (if day d \<le> len then plusCalendarMonths d k r
         else day r = day d - len \<and> year r * 12 + month r = year d * 12 + month d + k + 1)"
proof -
  have c: "calculateWarrantyEndDate d w = Some (setMonthPlus k d)"
    using assms(1,2) by (simp add: calculateWarrantyEndDate_def warrantyMonths_def)
  have len28: "28 \<le> len"
    using assms(4) daysInMonth_bounds by simp
  show ?thesis
  proof (cases "day d \<le> len")
    case True
    with assms(4) have fits: "day d \<le> daysInMonth (year d + m0 div 12) (m0 mod 12 + 1)"
      by simp
    from setMonthPlus_fits(2,3) [OF assms(1,3) fits] c True show ?thesis
      by simp
  next
    case False
    with assms(4) have over: "\<not> day d \<le> daysInMonth (year d + m0 div 12) (m0 mod 12 + 1)"
      by simp
    from False len28 have "\<not> day d \<le> 28"
      by simp
    moreover have "day (setMonthPlus k d) = day d - len"
      unfolding setMonthPlus_overflows(1) [OF assms(1,3) over] using assms(4) by simp
    ultimately show ?thesis
      using setMonthPlus_overflows(2,3) [OF assms(1,3) over] c False by simp
  qed
qed

theorem calculateWarrantyEndDate_months_witness:
  "validDate \<lparr>year = 2025, month = 11, day = 15\<rparr>
   \<and> (\<exists>r. calculateWarrantyEndDate \<lparr>year = 2025, month = 11, day = 15\<rparr> ''3'' = Some r
         \<and> plusCalendarMonths \<lparr>year = 2025, month = 11, day = 15\<rparr> 3 r)
   \<and> calculateWarrantyEndDate \<lparr>year = 2025, month = 11, day = 15\<rparr> ''3''
       = Some \<lparr>year = 2026, month = 2, day = 15\<rparr>"
proof -
  let ?d = "\<lparr>year = 2025, month = 11, day = 15\<rparr>"
  have h1: "validDate ?d"
    by code_simp
  have h2: "(3::nat) = (if ''3'' = ''6'' \<or> ''3'' = ''6 months'' then 6 else 3)"
    by simp
  have h5: "day ?d \<le> 28"
    by simp
  from calculateWarrantyEndDate_months [OF h1 h2 refl refl] h5
  have a: "\<exists>r. calculateWarrantyEndDate ?d ''3'' = Some r \<and> plusCalendarMonths ?d 3 r"
    by blast
  have b: "calculateWarrantyEndDate ?d ''3'' = Some \<lparr>year = 2026, month = 2, day = 15\<rparr>"
    by code_simp
  from h1 a b show ?thesis by blast
qed

section \<open>Properties of the phone status\<close>

lemma updateFirstPhone_None:
  "updateFirstPhone phoneId newStatus ps = None \<longleftrightarrow> find (\<lambda>p. phone_id p = phoneId) ps = None"
  by (induction ps) auto

lemma updateFirstPhone_shape:
  "updateFirstPhone phoneId newStatus ps = Some ps' \<Longrightarrow>
     \<exists>j<length ps. find (\<lambda>p. phone_id p = phoneId) ps = Some (ps ! j)
        \<and> ps' = ps[j := setStatus newStatus (ps ! j)]"
proof (induction ps arbitrary: ps')
  case Nil
  then show ?case by simp
next
  case (Cons p ps)
  show ?case
  proof (cases "phone_id p = phoneId")
    case True
    with Cons.prems show ?thesis by auto
  next
    case False
    with Cons.prems obtain qs where q: "updateFirstPhone phoneId newStatus ps = Some qs"
      and ps': "ps' = p # qs"
      by auto
    from Cons.IH [OF q] obtain j where "j < length ps"
      "find (\<lambda>p. phone_id p = phoneId) ps = Some (ps ! j)"
      "qs = ps[j := setStatus newStatus (ps ! j)]"
      by blast
    with False ps' show ?thesis
      by (intro exI [of _ "Suc j"]) simp
  qed
qed

lemma updateStatusIn_shape:
  "updateStatusIn phoneId newStatus rs = Some rs' \<Longrightarrow>
     \<exists>i<length rs. \<exists>j<length (phones (rs ! i)).
        findPhoneIn phoneId rs = Some (phones (rs ! i) ! j)
        \<and> rs' = rs[i := (rs ! i)\<lparr>phones :=
              (phones (rs ! i))[j := setStatus newStatus (phones (rs ! i) ! j)]\<rparr>]"
proof (induction rs arbitrary: rs')
  case Nil
  then show ?case by simp
next
  case (Cons r rs)
  show ?case
  proof (cases "record_type r = ''vendor'' \<and> updateFirstPhone phoneId newStatus (phones r) \<noteq> None")
    case True
    then obtain ps where ps: "updateFirstPhone phoneId newStatus (phones r) = Some ps"
      by auto
    with True Cons.prems have rs': "rs' = r\<lparr>phones := ps\<rparr> # rs"
      by simp
    from updateFirstPhone_shape [OF ps] obtain j where "j < length (phones r)"
      "find (\<lambda>p. phone_id p = phoneId) (phones r) = Some (phones r ! j)"
      "ps = (phones r)[j := setStatus newStatus (phones r ! j)]"
      by blast
    with True rs' show ?thesis
      by (intro exI [of _ 0]) auto
  next
    case False
    then have none: "record_type r = ''vendor'' \<Longrightarrow>
        find (\<lambda>p. phone_id p = phoneId) (phones r) = None"
      by (simp add: updateFirstPhone_None)
    from False Cons.prems obtain qs where q: "updateStatusIn phoneId newStatus rs = Some qs"
      and rs': "rs' = r # qs"
      by (auto split: if_splits option.splits)
    from Cons.IH [OF q] obtain i j where "i < length rs" "j < length (phones (rs ! i))"
      "findPhoneIn phoneId rs = Some (phones (rs ! i) ! j)"
      "qs = rs[i := (rs ! i)\<lparr>phones :=
              (phones (rs ! i))[j := setStatus newStatus (phones (rs ! i) ! j)]\<rparr>]"
      by blast
    with rs' none show ?thesis
      by (intro exI [of _ "Suc i"]) auto
  qed
qed

text \<open>
  \<open>updatePhoneStatus\<close> with a status that the table offers for the phone it finds:
  no phone that was \<open>Billed\<close> is changed in any field, no phone becomes \<open>Billed\<close>,
  and the records, their bills, the number of phones and their identifiers stay as
  they were.
\<close>

lemma updatePhoneStatus_offered:
  assumes "\<forall>p. findPhoneIn phoneId (cachedRecords s) = Some p \<longrightarrow> newStatus \<in> set (statusOptions p)"
    and "s' = updatePhoneStatus phoneId newStatus s"
  shows "length (cachedRecords s') = length (cachedRecords s)
     \<and> (\<forall>i<length (cachedRecords s).
          bills (cachedRecords s' ! i) = bills (cachedRecords s ! i)
          \<and> length (phones (cachedRecords s' ! i)) = length (phones (cachedRecords s ! i))
          \<and> (\<forall>j<length (phones (cachedRecords s ! i)).
               (status (phones (cachedRecords s ! i) ! j) = ''Billed''
                  \<longrightarrow> phones (cachedRecords s' ! i) ! j = phones (cachedRecords s ! i) ! j)
               \<and> (status (phones (cachedRecords s' ! i) ! j) = ''Billed''
                  \<longrightarrow> status (phones (cachedRecords s ! i) ! j) = ''Billed'')
               \<and> phone_id (phones (cachedRecords s' ! i) ! j)
                   = phone_id (phones (cachedRecords s ! i) ! j)))"
proof (cases "updateStatusIn phoneId newStatus (cachedRecords s)")
  case None
  with assms(2) have "s' = s"
    by (simp add: updatePhoneStatus_def)
  then show ?thesis by simp
next
  case (Some rs')
  let ?rs = "cachedRecords s"
  from updateStatusIn_shape [OF Some] obtain i0 j0 where i0: "i0 < length ?rs"
    and j0: "j0 < length (phones (?rs ! i0))"
    and found: "findPhoneIn phoneId ?rs = Some (phones (?rs ! i0) ! j0)"
    and rs': "rs' = ?rs[i0 := (?rs ! i0)\<lparr>phones :=
              (phones (?rs ! i0))[j0 := setStatus newStatus (phones (?rs ! i0) ! j0)]\<rparr>]"
    by blast
  from assms(1) found have opt: "newStatus \<in> set (statusOptions (phones (?rs ! i0) ! j0))"
    by simp
  then have old: "status (phones (?rs ! i0) ! j0) \<noteq> ''Billed''"
    and new: "newStatus \<noteq> ''Billed''"
    by (auto simp: statusOptions_def split: if_splits)
  from Some assms(2) have s': "cachedRecords s' = rs'"
    by (simp add: updatePhoneStatus_def saveRecords_def)
  have len: "length (cachedRecords s') = length ?rs"
    using s' rs' by simp
  have each: "\<forall>i<length (cachedRecords s).
          bills (cachedRecords s' ! i) = bills (cachedRecords s ! i)
          \<and> length (phones (cachedRecords s' ! i)) = length (phones (cachedRecords s ! i))
          \<and> (\<forall>j<length (phones (cachedRecords s ! i)).
               (status (phones (cachedRecords s ! i) ! j) = ''Billed''
                  \<longrightarrow> phones (cachedRecords s' ! i) ! j = phones (cachedRecords s ! i) ! j)
               \<and> (status (phones (cachedRecords s' ! i) ! j) = ''Billed''
                  \<longrightarrow> status (phones (cachedRecords s ! i) ! j) = ''Billed'')
               \<and> phone_id (phones (cachedRecords s' ! i) ! j)
                   = phone_id (phones (cachedRecords s ! i) ! j))"
  proof (intro allI impI)
    fix i
    assume i: "i < length ?rs"
    show "bills (cachedRecords s' ! i) = bills (?rs ! i)
          \<and> length (phones (cachedRecords s' ! i)) = length (phones (?rs ! i))
          \<and> (\<forall>j<length (phones (?rs ! i)).
               (status (phones (?rs ! i) ! j) = ''Billed''
                  \<longrightarrow> phones (cachedRecords s' ! i) ! j = phones (?rs ! i) ! j)
               \<and> (status (phones (cachedRecords s' ! i) ! j) = ''Billed''
                  \<longrightarrow> status (phones (?rs ! i) ! j) = ''Billed'')
               \<and> phone_id (phones (cachedRecords s' ! i) ! j) = phone_id (phones (?rs ! i) ! j))"
    proof (cases "i = i0")
      case False
      with i show ?thesis
        unfolding s' rs' by simp
    next
      case True
      have r: "cachedRecords s' ! i0 = (?rs ! i0)\<lparr>phones :=
              (phones (?rs ! i0))[j0 := setStatus newStatus (phones (?rs ! i0) ! j0)]\<rparr>"
        unfolding s' rs' using i0 by simp
      show ?thesis
        unfolding True r using old new j0
        by (auto simp: nth_list_update setStatus_def)
    qed
  qed
  from len each show ?thesis by (rule conjI)
qed



text \<open>
  What one operation does to the phone at a position of the store: it stays where it
  is with its identifier; it is left as it was, or \<open>updatePhoneStatus\<close> wrote a status
  on it, or the creation branch of \<open>saveVendorBill\<close> ran \<open>markBilled\<close> on it.
\<close>

lemma perform_phone_shape:
  assumes "i < length (cachedRecords s)"
    and "j < length (phones (cachedRecords s ! i))"
  shows "i < length (cachedRecords (perform op s))
     \<and> j < length (phones (cachedRecords (perform op s) ! i))
     \<and> (phones (cachedRecords (perform op s) ! i) ! j = phones (cachedRecords s ! i) ! j
        \<or> (\<exists>phoneId newStatus. op = UpdatePhoneStatus phoneId newStatus)
        \<or> (\<exists>vendorId form todayDate now billId.
              op = SaveVendorBill vendorId form todayDate now
              \<and> fst (saveVendorBill vendorId form todayDate now s) = Inr (BillCreated billId)
              \<and> findIndex (\<lambda>r. vendor_id r = Some vendorId) (cachedRecords s) = Some i
              \<and> phones (cachedRecords (perform op s) ! i) ! j
                  = markBilled (selectionOf form (cachedRecords s ! i)) billId
                      (phones (cachedRecords s ! i) ! j)))"
proof (cases op)
  case InitializeSampleData
  from assms(1) have "cachedRecords s \<noteq> []"
    by auto
  with InitializeSampleData assms show ?thesis
    by (simp add: initializeSampleData_def)
next
  case CreateService
  with assms show ?thesis
    by (simp add: createService_def Let_def saveRecords_def nth_append)
next
  case CreateLaptop
  with assms show ?thesis
    by (simp add: createLaptop_def Let_def saveRecords_def nth_append)
next
  case (CreateVendor newVendorName)
  with assms show ?thesis
    by (simp add: createVendor_def Let_def saveRecords_def nth_append)
next
  case (AddPhone vendorId formData)
  show ?thesis
  proof (cases "findIndex (\<lambda>r. vendor_id r = Some vendorId) (cachedRecords s)")
    case None
    with AddPhone assms show ?thesis
      by (simp add: addPhone_def)
  next
    case (Some vi)
    with AddPhone assms show ?thesis
      by (cases "i = vi") (simp_all add: addPhone_def Let_def saveRecords_def nth_append)
  qed
next
  case (UpdatePhoneStatus phoneId newStatus)
  have len: "length (cachedRecords (updatePhoneStatus phoneId newStatus s))
      = length (cachedRecords s)"
    and ph: "length (phones (cachedRecords (updatePhoneStatus phoneId newStatus s) ! i))
      = length (phones (cachedRecords s ! i))"
  proof -
    show "length (cachedRecords (updatePhoneStatus phoneId newStatus s))
      = length (cachedRecords s)"
    proof (cases "updateStatusIn phoneId newStatus (cachedRecords s)")
      case None
      then show ?thesis by (simp add: updatePhoneStatus_def)
    next
      case (Some rs')
      from updateStatusIn_shape [OF Some] show ?thesis
        using Some by (auto simp: updatePhoneStatus_def saveRecords_def)
    qed
    show "length (phones (cachedRecords (updatePhoneStatus phoneId newStatus s) ! i))
      = length (phones (cachedRecords s ! i))"
    proof (cases "updateStatusIn phoneId newStatus (cachedRecords s)")
      case None
      then show ?thesis by (simp add: updatePhoneStatus_def)
    next
      case (Some rs')
      from updateStatusIn_shape [OF Some] obtain i0 j0 where
        "rs' = (cachedRecords s)[i0 := (cachedRecords s ! i0)\<lparr>phones :=
              (phones (cachedRecords s ! i0))[j0 :=
                 setStatus newStatus (phones (cachedRecords s ! i0) ! j0)]\<rparr>]"
        by blast
      with Some assms(1) show ?thesis
        by (cases "i = i0") (simp_all add: updatePhoneStatus_def saveRecords_def)
    qed
  qed
  with UpdatePhoneStatus assms show ?thesis
    by simp
next
  case (EditVendorBill vendorId billId)
  with assms show ?thesis
    by (simp add: editVendorBill_def split: option.splits)
next
  case (SaveVendorBill vendorId form todayDate now)
  show ?thesis
  proof (cases "findIndex (\<lambda>r. vendor_id r = Some vendorId) (cachedRecords s)")
    case None
    with SaveVendorBill assms show ?thesis
      by (simp add: saveVendorBill_def)
  next
    case (Some vi)
    have vi: "vi < length (cachedRecords s)"
      using findIndex_Some [OF Some] by simp
    let ?vendor = "cachedRecords s ! vi"
    let ?sel = "selectionOf form ?vendor"
    show ?thesis
    proof (cases "?sel = []")
      case True
      with SaveVendorBill Some assms show ?thesis
        by (simp add: saveVendorBill_def selectionOf_def Let_def)
    next
      case False
      note found = saveVendorBill_found [OF Some refl refl False [unfolded selectionOf_def],
        of todayDate now, folded selectionOf_def]
      show ?thesis
      proof (cases "case editingBill s of
              None \<Rightarrow> None
            | Some billId \<Rightarrow>
                map_option (Pair billId) (findIndex (\<lambda>b. vb_bill_id b = billId) (bills ?vendor))")
        case (Some a)
        then obtain billId k where a: "a = (billId, k)"
          by (cases a) simp
        from found Some a SaveVendorBill assms show ?thesis
          by (cases "i = vi") (simp_all add: saveRecords_def updateBill_def)
      next
        case None
        let ?id = "generateBillID vendorId (length (bills ?vendor) + 1)"
        from found None have res: "fst (saveVendorBill vendorId form todayDate now s)
            = Inr (BillCreated ?id)"
          by simp
        show ?thesis
        proof (cases "i = vi")
          case False
          with found None SaveVendorBill assms show ?thesis
            by (simp add: saveRecords_def)
        next
          case True
          have bounds: "i < length (cachedRecords (perform op s))
              \<and> j < length (phones (cachedRecords (perform op s) ! i))"
            using found None SaveVendorBill assms True
            by (simp add: saveRecords_def createBill_def)
          have new: "phones (cachedRecords (perform op s) ! i) ! j
              = markBilled (selectionOf form (cachedRecords s ! i)) ?id
                  (phones (cachedRecords s ! i) ! j)"
            using found None SaveVendorBill assms True
            by (simp add: saveRecords_def createBill_def newBillOf_def)
          from bounds new res \<open>findIndex (\<lambda>r. vendor_id r = Some vendorId) (cachedRecords s) = Some vi\<close>
            True SaveVendorBill
          show ?thesis by blast
        qed
      qed
    qed
  qed
qed


lemma perform_status_step:
  assumes "statusOffered op s"
    and "i < length (cachedRecords s)"
    and "j < length (phones (cachedRecords s ! i))"
  shows "i < length (cachedRecords (perform op s))
     \<and> j < length (phones (cachedRecords (perform op s) ! i))
     \<and> phone_id (phones (cachedRecords (perform op s) ! i) ! j)
         = phone_id (phones (cachedRecords s ! i) ! j)
     \<and> (status (phones (cachedRecords s ! i) ! j) = ''Billed''
          \<longrightarrow> status (phones (cachedRecords (perform op s) ! i) ! j) = ''Billed'')
     \<and> (status (phones (cachedRecords s ! i) ! j) \<noteq> ''Billed''
          \<and> status (phones (cachedRecords (perform op s) ! i) ! j) = ''Billed''
          \<longrightarrow> (\<exists>vendorId form todayDate now billId.
                 op = SaveVendorBill vendorId form todayDate now
                 \<and> fst (saveVendorBill vendorId form todayDate now s) = Inr (BillCreated billId)
                 \<and> findIndex (\<lambda>r. vendor_id r = Some vendorId) (cachedRecords s) = Some i
                 \<and> phone_id (phones (cachedRecords s ! i) ! j)
                     \<in> set (selectionOf form (cachedRecords s ! i))
                 \<and> billed (phones (cachedRecords (perform op s) ! i) ! j)
                 \<and> bill_id (phones (cachedRecords (perform op s) ! i) ! j) = Some billId))"
proof -
  let ?old = "phones (cachedRecords s ! i) ! j"
  let ?new = "phones (cachedRecords (perform op s) ! i) ! j"
  let ?made = "\<exists>vendorId form todayDate now billId.
                 op = SaveVendorBill vendorId form todayDate now
                 \<and> fst (saveVendorBill vendorId form todayDate now s) = Inr (BillCreated billId)
                 \<and> findIndex (\<lambda>r. vendor_id r = Some vendorId) (cachedRecords s) = Some i
                 \<and> phone_id ?old \<in> set (selectionOf form (cachedRecords s ! i))
                 \<and> billed ?new \<and> bill_id ?new = Some billId"
  note shape = perform_phone_shape [OF assms(2,3), of op]
  from shape have b1: "i < length (cachedRecords (perform op s))"
    by (rule conjunct1)
  from shape have b2: "j < length (phones (cachedRecords (perform op s) ! i))"
    by (rule conjunct2 [THEN conjunct1])
  from shape have three: "?new = ?old
        \<or> (\<exists>phoneId newStatus. op = UpdatePhoneStatus phoneId newStatus)
        \<or> (\<exists>vendorId form todayDate now billId.
              op = SaveVendorBill vendorId form todayDate now
              \<and> fst (saveVendorBill vendorId form todayDate now s) = Inr (BillCreated billId)
              \<and> findIndex (\<lambda>r. vendor_id r = Some vendorId) (cachedRecords s) = Some i
              \<and> ?new = markBilled (selectionOf form (cachedRecords s ! i)) billId ?old)"
    by (rule conjunct2 [THEN conjunct2])
  have rest: "phone_id ?new = phone_id ?old
     \<and> (status ?old = ''Billed'' \<longrightarrow> status ?new = ''Billed'')
     \<and> (status ?old \<noteq> ''Billed'' \<and> status ?new = ''Billed'' \<longrightarrow> ?made)"
    using three
  proof (elim disjE exE conjE)
    assume "?new = ?old"
    then show ?thesis by simp
  next
    fix phoneId newStatus
    assume op: "op = UpdatePhoneStatus phoneId newStatus"
    then have eq: "updatePhoneStatus phoneId newStatus s = perform op s"
      by simp
    from assms(1) op
    have h: "\<forall>p. findPhoneIn phoneId (cachedRecords s) = Some p
        \<longrightarrow> newStatus \<in> set (statusOptions p)"
      by (simp split: option.splits)
    note f = updatePhoneStatus_offered [OF h refl, THEN conjunct2, THEN spec, THEN mp,
      OF assms(2), THEN conjunct2, THEN conjunct2, THEN spec, THEN mp, OF assms(3), unfolded eq]
    from f have same: "status ?old = ''Billed'' \<longrightarrow> ?new = ?old"
      by (rule conjunct1)
    from f have unbilled: "status ?new = ''Billed'' \<longrightarrow> status ?old = ''Billed''"
      by (rule conjunct2 [THEN conjunct1])
    from f have id: "phone_id ?new = phone_id ?old"
      by (rule conjunct2 [THEN conjunct2])
    have keep: "status ?old = ''Billed'' \<longrightarrow> status ?new = ''Billed''"
    proof
      assume o: "status ?old = ''Billed''"
      with same have "?new = ?old" ..
      with o show "status ?new = ''Billed''" by simp
    qed
    from unbilled have never: "\<not> (status ?old \<noteq> ''Billed'' \<and> status ?new = ''Billed'')"
      by blast
    from never have "status ?old \<noteq> ''Billed'' \<and> status ?new = ''Billed'' \<longrightarrow> ?made"
      by (rule contrapos_np [THEN impI, of _ _ "?made"]) assumption
    with id keep show ?thesis
      by (intro conjI)
  next
    fix vendorId form todayDate now billId
    assume op: "op = SaveVendorBill vendorId form todayDate now"
      and res: "fst (saveVendorBill vendorId form todayDate now s) = Inr (BillCreated billId)"
      and fi: "findIndex (\<lambda>r. vendor_id r = Some vendorId) (cachedRecords s) = Some i"
      and new: "?new = markBilled (selectionOf form (cachedRecords s ! i)) billId ?old"
    have id: "phone_id ?new = phone_id ?old"
      unfolding new by (simp add: markBilled_def)
    have keep: "status ?old = ''Billed'' \<longrightarrow> status ?new = ''Billed''"
      unfolding new by (simp add: markBilled_def)
    have enter: "status ?old \<noteq> ''Billed'' \<and> status ?new = ''Billed'' \<longrightarrow> ?made"
    proof
      assume a: "status ?old \<noteq> ''Billed'' \<and> status ?new = ''Billed''"
      then have sel: "phone_id ?old \<in> set (selectionOf form (cachedRecords s ! i))"
        unfolding new by (simp add: markBilled_def split: if_splits)
      then have "billed ?new" "bill_id ?new = Some billId"
        unfolding new by (simp_all add: markBilled_def)
      with op res fi sel show ?made
        by (intro exI [of _ vendorId] exI [of _ form] exI [of _ todayDate] exI [of _ now]
            exI [of _ billId] conjI)
    qed
    from id keep enter show ?thesis
      by (intro conjI)
  qed
  show ?thesis
    by (rule conjI [OF b1 conjI [OF b2 rest]])
qed

lemma run_keeps_billed:
  "statusOfferedRun ops s \<Longrightarrow> i < length (cachedRecords s)
     \<Longrightarrow> j < length (phones (cachedRecords s ! i))
     \<Longrightarrow> i < length (cachedRecords (run ops s))
        \<and> j < length (phones (cachedRecords (run ops s) ! i))
        \<and> phone_id (phones (cachedRecords (run ops s) ! i) ! j)
            = phone_id (phones (cachedRecords s ! i) ! j)
        \<and> (status (phones (cachedRecords s ! i) ! j) = ''Billed''
             \<longrightarrow> status (phones (cachedRecords (run ops s) ! i) ! j) = ''Billed'')"
proof (induction ops arbitrary: s)
  case Nil
  then show ?case by simp
next
  case (Cons op ops)
  from Cons.prems(1) have off: "statusOffered op s"
    and rest: "statusOfferedRun ops (perform op s)"
    by simp_all
  note step = perform_status_step [OF off Cons.prems(2,3)]
  note b1 = step [THEN conjunct1]
  note b2 = step [THEN conjunct2, THEN conjunct1]
  note id = step [THEN conjunct2, THEN conjunct2, THEN conjunct1]
  note keep = step [THEN conjunct2, THEN conjunct2, THEN conjunct2, THEN conjunct1]
  from Cons.IH [OF rest b1 b2] id keep show ?case
    by simp
qed

lemma run_billed_by_bill:
  "statusOfferedRun ops s \<Longrightarrow> i < length (cachedRecords s)
     \<Longrightarrow> j < length (phones (cachedRecords s ! i))
     \<Longrightarrow> status (phones (cachedRecords s ! i) ! j) \<noteq> ''Billed''
     \<Longrightarrow> status (phones (cachedRecords (run ops s) ! i) ! j) = ''Billed''
     \<Longrightarrow> \<exists>pre vendorId form todayDate now post billId.
           ops = pre @ SaveVendorBill vendorId form todayDate now # post
           \<and> fst (saveVendorBill vendorId form todayDate now (run pre s))
               = Inr (BillCreated billId)
           \<and> findIndex (\<lambda>r. vendor_id r = Some vendorId) (cachedRecords (run pre s)) = Some i
           \<and> phone_id (phones (cachedRecords s ! i) ! j)
               \<in> set (selectionOf form (cachedRecords (run pre s) ! i))"
proof (induction ops arbitrary: s)
  case Nil
  then show ?case by simp
next
  case (Cons op ops)
  from Cons.prems(1) have off: "statusOffered op s"
    and rest: "statusOfferedRun ops (perform op s)"
    by simp_all
  note step = perform_status_step [OF off Cons.prems(2,3)]
  note b1 = step [THEN conjunct1]
  note b2 = step [THEN conjunct2, THEN conjunct1]
  note id = step [THEN conjunct2, THEN conjunct2, THEN conjunct1]
  note enter = step [THEN conjunct2, THEN conjunct2, THEN conjunct2, THEN conjunct2]
  show ?case
  proof (cases "status (phones (cachedRecords (perform op s) ! i) ! j) = ''Billed''")
    case True
    from enter [THEN mp, OF conjI [OF Cons.prems(4) True]]
    obtain vendorId form todayDate now billId where
      op: "op = SaveVendorBill vendorId form todayDate now"
      and res: "fst (saveVendorBill vendorId form todayDate now s) = Inr (BillCreated billId)"
      and fi: "findIndex (\<lambda>r. vendor_id r = Some vendorId) (cachedRecords s) = Some i"
      and sel: "phone_id (phones (cachedRecords s ! i) ! j)
          \<in> set (selectionOf form (cachedRecords s ! i))"
      by (elim exE conjE)
    from op res fi sel show ?thesis
      by (intro exI [of _ "[]"] exI [of _ vendorId] exI [of _ form] exI [of _ todayDate]
          exI [of _ now] exI [of _ ops] exI [of _ billId]) simp
  next
    case False
    from Cons.prems(5) have "status (phones (cachedRecords (run ops (perform op s)) ! i) ! j)
        = ''Billed''"
      by simp
    from Cons.IH [OF rest b1 b2 False this] obtain pre vendorId form todayDate now post billId
      where ops: "ops = pre @ SaveVendorBill vendorId form todayDate now # post"
      and res: "fst (saveVendorBill vendorId form todayDate now (run pre (perform op s)))
         = Inr (BillCreated billId)"
      and fi: "findIndex (\<lambda>r. vendor_id r = Some vendorId)
         (cachedRecords (run pre (perform op s))) = Some i"
      and sel: "phone_id (phones (cachedRecords (perform op s) ! i) ! j)
         \<in> set (selectionOf form (cachedRecords (run pre (perform op s)) ! i))"
      by (elim exE conjE)
    from ops res fi sel id show ?thesis
      by (intro exI [of _ "op # pre"] exI [of _ vendorId] exI [of _ form] exI [of _ todayDate]
          exI [of _ now] exI [of _ post] exI [of _ billId]) simp
  qed
qed

text \<open>
  C5, as stated, fails: \<open>updatePhoneStatus\<close> writes the status it is given on the
  phone it finds, whatever the two are. On the sample store the billed phone
  \<open>VND001-P001\<close> is set back to \<open>Received\<close> (and stays billed), and the unbilled
  phone \<open>VND001-P005\<close> is set to \<open>Billed\<close> with no bill made.
\<close>

theorem updatePhoneStatus_unguarded:
  "status (phones (cachedRecords sampleState ! 1) ! 0) = ''Billed''
   \<and> status (phones (cachedRecords
        (updatePhoneStatus ''VND001-P001'' ''Received'' sampleState) ! 1) ! 0) = ''Received''
   \<and> billed (phones (cachedRecords
        (updatePhoneStatus ''VND001-P001'' ''Received'' sampleState) ! 1) ! 0)
   \<and> status (phones (cachedRecords sampleState ! 1) ! 4) = ''Received''
   \<and> status (phones (cachedRecords
        (updatePhoneStatus ''VND001-P005'' ''Billed'' sampleState) ! 1) ! 4) = ''Billed''
   \<and> \<not> billed (phones (cachedRecords
        (updatePhoneStatus ''VND001-P005'' ''Billed'' sampleState) ! 1) ! 4)
   \<and> bills (cachedRecords (updatePhoneStatus ''VND001-P005'' ''Billed'' sampleState) ! 1)
       = bills (cachedRecords sampleState ! 1)"
  by code_simp

text \<open>
  C5, amended. \<open>updatePhoneStatus\<close> has no guard of its own; the guard is the
  vendor-details table, which shows the status control only for a phone that is not
  \<open>Billed\<close> and offers \<open>Received\<close>, \<open>In Repair\<close> and \<open>Ready\<close>. Take any
  operation on the store - sample data, a new service, laptop or vendor record, a
  new phone, a status update, opening a bill for edit, saving a bill - where a status
  update carries one of the options shown for the phone it finds. The phone at a
  position of the store stays at that position with its identifier; if its status was
  \<open>Billed\<close> it is still \<open>Billed\<close>; and if its status was not \<open>Billed\<close> and now
  is, the operation was a \<open>saveVendorBill\<close> on the phone's vendor record that
  created a bill, the selection of that bill contains the phone's identifier, and the
  phone is now billed under the new bill identifier. Over any run of such operations
  a \<open>Billed\<close> phone is \<open>Billed\<close> at the end, and a phone that was not
  \<open>Billed\<close> and is at the end became so at a bill-creating \<open>saveVendorBill\<close> of
  the run whose selection contains it.
\<close>

theorem billed_status_is_terminal:
  assumes "i < length (cachedRecords s)"
    and "j < length (phones (cachedRecords s ! i))"
    and "p = phones (cachedRecords s ! i) ! j"
  shows "(\<forall>op. statusOffered op s \<longrightarrow>
           i < length (cachedRecords (perform op s))
           \<and> j < length (phones (cachedRecords (perform op s) ! i))
           \<and> phone_id (phones (cachedRecords (perform op s) ! i) ! j) = phone_id p
           \<and> (status p = ''Billed''
                \<longrightarrow> status (phones (cachedRecords (perform op s) ! i) ! j) = ''Billed'')
           \<and> (status p \<noteq> ''Billed''
                \<and> status (phones (cachedRecords (perform op s) ! i) ! j) = ''Billed''
                \<longrightarrow> (\<exists>vendorId form todayDate now billId.
                       op = SaveVendorBill vendorId form todayDate now
                       \<and> fst (saveVendorBill vendorId form todayDate now s)
                           = Inr (BillCreated billId)
                       \<and> findIndex (\<lambda>r. vendor_id r = Some vendorId) (cachedRecords s) = Some i
                       \<and> phone_id p \<in> set (selectionOf form (cachedRecords s ! i))
                       \<and> billed (phones (cachedRecords (perform op s) ! i) ! j)
                       \<and> bill_id (phones (cachedRecords (perform op s) ! i) ! j)
                           = Some billId)))
     \<and> (\<forall>ops. statusOfferedRun ops s \<longrightarrow>
           i < length (cachedRecords (run ops s))
           \<and> j < length (phones (cachedRecords (run ops s) ! i))
           \<and> phone_id (phones (cachedRecords (run ops s) ! i) ! j) = phone_id p
           \<and> (status p = ''Billed''
                \<longrightarrow> status (phones (cachedRecords (run ops s) ! i) ! j) = ''Billed'')
           \<and> (status p \<noteq> ''Billed''
                \<and> status (phones (cachedRecords (run ops s) ! i) ! j) = ''Billed''
                \<longrightarrow> (\<exists>pre vendorId form todayDate now post billId.
                       ops = pre @ SaveVendorBill vendorId form todayDate now # post
                       \<and> fst (saveVendorBill vendorId form todayDate now (run pre s))
                           = Inr (BillCreated billId)
                       \<and> findIndex (\<lambda>r. vendor_id r = Some vendorId)
                           (cachedRecords (run pre s)) = Some i
                       \<and> phone_id p \<in> set (selectionOf form (cachedRecords (run pre s) ! i)))))"
  unfolding assms(3)
proof (rule conjI)
  show "\<forall>op. statusOffered op s \<longrightarrow>
           i < length (cachedRecords (perform op s))
           \<and> j < length (phones (cachedRecords (perform op s) ! i))
           \<and> phone_id (phones (cachedRecords (perform op s) ! i) ! j)
               = phone_id (phones (cachedRecords s ! i) ! j)
           \<and> (status (phones (cachedRecords s ! i) ! j) = ''Billed''
                \<longrightarrow> status (phones (cachedRecords (perform op s) ! i) ! j) = ''Billed'')
           \<and> (status (phones (cachedRecords s ! i) ! j) \<noteq> ''Billed''
                \<and> status (phones (cachedRecords (perform op s) ! i) ! j) = ''Billed''
                \<longrightarrow> (\<exists>vendorId form todayDate now billId.
                       op = SaveVendorBill vendorId form todayDate now
                       \<and> fst (saveVendorBill vendorId form todayDate now s)
                           = Inr (BillCreated billId)
                       \<and> findIndex (\<lambda>r. vendor_id r = Some vendorId) (cachedRecords s) = Some i
                       \<and> phone_id (phones (cachedRecords s ! i) ! j)
                           \<in> set (selectionOf form (cachedRecords s ! i))
                       \<and> billed (phones (cachedRecords (perform op s) ! i) ! j)
                       \<and> bill_id (phones (cachedRecords (perform op s) ! i) ! j)
                           = Some billId))"
  proof (rule allI, rule impI)
    fix op
    assume "statusOffered op s"
    then show "i < length (cachedRecords (perform op s))
           \<and> j < length (phones (cachedRecords (perform op s) ! i))
           \<and> phone_id (phones (cachedRecords (perform op s) ! i) ! j)
               = phone_id (phones (cachedRecords s ! i) ! j)
           \<and> (status (phones (cachedRecords s ! i) ! j) = ''Billed''
                \<longrightarrow> status (phones (cachedRecords (perform op s) ! i) ! j) = ''Billed'')
           \<and> (status (phones (cachedRecords s ! i) ! j) \<noteq> ''Billed''
                \<and> status (phones (cachedRecords (perform op s) ! i) ! j) = ''Billed''
                \<longrightarrow> (\<exists>vendorId form todayDate now billId.
                       op = SaveVendorBill vendorId form todayDate now
                       \<and> fst (saveVendorBill vendorId form todayDate now s)
                           = Inr (BillCreated billId)
                       \<and> findIndex (\<lambda>r. vendor_id r = Some vendorId) (cachedRecords s) = Some i
                       \<and> phone_id (phones (cachedRecords s ! i) ! j)
                           \<in> set (selectionOf form (cachedRecords s ! i))
                       \<and> billed (phones (cachedRecords (perform op s) ! i) ! j)
                       \<and> bill_id (phones (cachedRecords (perform op s) ! i) ! j)
                           = Some billId))"
      using assms(1,2) by (rule perform_status_step)
  qed
next
  show "\<forall>ops. statusOfferedRun ops s \<longrightarrow>
           i < length (cachedRecords (run ops s))
           \<and> j < length (phones (cachedRecords (run ops s) ! i))
           \<and> phone_id (phones (cachedRecords (run ops s) ! i) ! j)
               = phone_id (phones (cachedRecords s ! i) ! j)
           \<and> (status (phones (cachedRecords s ! i) ! j) = ''Billed''
                \<longrightarrow> status (phones (cachedRecords (run ops s) ! i) ! j) = ''Billed'')
           \<and> (status (phones (cachedRecords s ! i) ! j) \<noteq> ''Billed''
                \<and> status (phones (cachedRecords (run ops s) ! i) ! j) = ''Billed''
                \<longrightarrow> (\<exists>pre vendorId form todayDate now post billId.
                       ops = pre @ SaveVendorBill vendorId form todayDate now # post
                       \<and> fst (saveVendorBill vendorId form todayDate now (run pre s))
                           = Inr (BillCreated billId)
                       \<and> findIndex (\<lambda>r. vendor_id r = Some vendorId)
                           (cachedRecords (run pre s)) = Some i
                       \<and> phone_id (phones (cachedRecords s ! i) ! j)
                           \<in> set (selectionOf form (cachedRecords (run pre s) ! i))))"
  proof (rule allI, rule impI)
    fix ops
    assume off: "statusOfferedRun ops s"
    note keep = run_keeps_billed [OF off assms(1,2)]
    have enter: "status (phones (cachedRecords s ! i) ! j) \<noteq> ''Billed''
                \<and> status (phones (cachedRecords (run ops s) ! i) ! j) = ''Billed''
                \<longrightarrow> (\<exists>pre vendorId form todayDate now post billId.
                       ops = pre @ SaveVendorBill vendorId form todayDate now # post
                       \<and> fst (saveVendorBill vendorId form todayDate now (run pre s))
                           = Inr (BillCreated billId)
                       \<and> findIndex (\<lambda>r. vendor_id r = Some vendorId)
                           (cachedRecords (run pre s)) = Some i
                       \<and> phone_id (phones (cachedRecords s ! i) ! j)
                           \<in> set (selectionOf form (cachedRecords (run pre s) ! i)))"
    proof
      assume a: "status (phones (cachedRecords s ! i) ! j) \<noteq> ''Billed''
                \<and> status (phones (cachedRecords (run ops s) ! i) ! j) = ''Billed''"
      show "\<exists>pre vendorId form todayDate now post billId.
                       ops = pre @ SaveVendorBill vendorId form todayDate now # post
                       \<and> fst (saveVendorBill vendorId form todayDate now (run pre s))
                           = Inr (BillCreated billId)
                       \<and> findIndex (\<lambda>r. vendor_id r = Some vendorId)
                           (cachedRecords (run pre s)) = Some i
                       \<and> phone_id (phones (cachedRecords s ! i) ! j)
                           \<in> set (selectionOf form (cachedRecords (run pre s) ! i))"
        by (rule run_billed_by_bill [OF off assms(1,2) a [THEN conjunct1] a [THEN conjunct2]])
    qed
    show "i < length (cachedRecords (run ops s))
           \<and> j < length (phones (cachedRecords (run ops s) ! i))
           \<and> phone_id (phones (cachedRecords (run ops s) ! i) ! j)
               = phone_id (phones (cachedRecords s ! i) ! j)
           \<and> (status (phones (cachedRecords s ! i) ! j) = ''Billed''
                \<longrightarrow> status (phones (cachedRecords (run ops s) ! i) ! j) = ''Billed'')
           \<and> (status (phones (cachedRecords s ! i) ! j) \<noteq> ''Billed''
                \<and> status (phones (cachedRecords (run ops s) ! i) ! j) = ''Billed''
                \<longrightarrow> (\<exists>pre vendorId form todayDate now post billId.
                       ops = pre @ SaveVendorBill vendorId form todayDate now # post
                       \<and> fst (saveVendorBill vendorId form todayDate now (run pre s))
                           = Inr (BillCreated billId)
                       \<and> findIndex (\<lambda>r. vendor_id r = Some vendorId)
                           (cachedRecords (run pre s)) = Some i
                       \<and> phone_id (phones (cachedRecords s ! i) ! j)
                           \<in> set (selectionOf form (cachedRecords (run pre s) ! i))))"
      by (rule conjI [OF keep [THEN conjunct1] conjI [OF keep [THEN conjunct2, THEN conjunct1]
        conjI [OF keep [THEN conjunct2, THEN conjunct2, THEN conjunct1]
        conjI [OF keep [THEN conjunct2, THEN conjunct2, THEN conjunct2] enter]]]])
  qed
qed

theorem billed_status_is_terminal_witness:
  "(1::nat) < length (cachedRecords sampleState)
   \<and> (0::nat) < length (phones (cachedRecords sampleState ! 1))
   \<and> status (phones (cachedRecords sampleState ! 1) ! 0) = ''Billed''
   \<and> statusOfferedRun
       [UpdatePhoneStatus ''VND001-P004'' ''Ready'',
        SaveVendorBill ''VND001'' (sampleForm (Some [''VND001-P003''])) ''2025-11-03''
          ''2025-11-03T10:00:00.000Z'',
        UpdatePhoneStatus ''VND001-P005'' ''In Repair''] sampleState
   \<and> status (phones (cachedRecords (run
       [UpdatePhoneStatus ''VND001-P004'' ''Ready'',
        SaveVendorBill ''VND001'' (sampleForm (Some [''VND001-P003''])) ''2025-11-03''
          ''2025-11-03T10:00:00.000Z'',
        UpdatePhoneStatus ''VND001-P005'' ''In Repair''] sampleState) ! 1) ! 0) = ''Billed''
   \<and> status (phones (cachedRecords (run
       [UpdatePhoneStatus ''VND001-P004'' ''Ready'',
        SaveVendorBill ''VND001'' (sampleForm (Some [''VND001-P003''])) ''2025-11-03''
          ''2025-11-03T10:00:00.000Z'',
        UpdatePhoneStatus ''VND001-P005'' ''In Repair''] sampleState) ! 1) ! 2) = ''Billed''
   \<and> status (phones (cachedRecords (run
       [UpdatePhoneStatus ''VND001-P004'' ''Ready'',
        SaveVendorBill ''VND001'' (sampleForm (Some [''VND001-P003''])) ''2025-11-03''
          ''2025-11-03T10:00:00.000Z'',
        UpdatePhoneStatus ''VND001-P005'' ''In Repair''] sampleState) ! 1) ! 4) = ''In Repair''"
proof -
  let ?ops = "[UpdatePhoneStatus ''VND001-P004'' ''Ready'',
        SaveVendorBill ''VND001'' (sampleForm (Some [''VND001-P003''])) ''2025-11-03''
          ''2025-11-03T10:00:00.000Z'',
        UpdatePhoneStatus ''VND001-P005'' ''In Repair'']"
  have i: "(1::nat) < length (cachedRecords sampleState)"
    by code_simp
  have j: "(0::nat) < length (phones (cachedRecords sampleState ! 1))"
    by code_simp
  have b: "status (phones (cachedRecords sampleState ! 1) ! 0) = ''Billed''"
    by code_simp
  have off: "statusOfferedRun ?ops sampleState"
    by code_simp
  have k: "status (phones (cachedRecords (run ?ops sampleState) ! 1) ! 0) = ''Billed''"
    using billed_status_is_terminal [OF i j refl, THEN conjunct2, THEN spec, THEN mp, OF off,
      THEN conjunct2, THEN conjunct2, THEN conjunct2, THEN conjunct1, THEN mp, OF b] .
  have n: "status (phones (cachedRecords (run ?ops sampleState) ! 1) ! 2) = ''Billed''"
    by code_simp
  have r: "status (phones (cachedRecords (run ?ops sampleState) ! 1) ! 4) = ''In Repair''"
    by code_simp
  from i j b off k n r show ?thesis by (intro conjI)
qed


section \<open>The billing invariant\<close>

lemma decimalValue_snoc:
  "decimalValue (str @ [c]) = 10 * decimalValue str + (of_char c - 48)"
  by (simp add: decimalValue_def)

lemma decimalValue_showNat: "decimalValue (showNat n) = n"
proof (induction n rule: showNat.induct)
  case (1 n)
  show ?case
  proof (cases "n < 10")
    case True
    then show ?thesis
      by (subst showNat.simps) (simp add: decimalValue_def)
  next
    case False
    have "showNat n = showNat (n div 10) @ [char_of (48 + n mod 10)]"
      using False by (subst showNat.simps) simp
    moreover have "(of_char (char_of (48 + n mod 10 :: nat)) :: nat) = 48 + n mod 10"
      by simp
    ultimately show ?thesis
      using "1.IH" [OF False] by (simp add: decimalValue_snoc)
  qed
qed

lemma decimalValue_zeros: "decimalValue (replicate k CHR ''0'' @ str) = decimalValue str"
proof -
  have "foldl (\<lambda>a c. 10 * a + (of_char c - 48)) 0 (replicate k CHR ''0'') = (0::nat)"
    by (induction k) simp_all
  then show ?thesis
    by (simp add: decimalValue_def)
qed

lemma generatePhoneID_inj:
  assumes "generatePhoneID v m = generatePhoneID v n"
  shows "m = n"
proof -
  from assms have "padStart3 (showNat m) = padStart3 (showNat n)"
    by (simp add: generatePhoneID_def)
  then have "decimalValue (padStart3 (showNat m)) = decimalValue (padStart3 (showNat n))"
    by simp
  then show ?thesis
    by (simp add: padStart3_def decimalValue_zeros decimalValue_showNat)
qed

lemma pairwiseDisjoint_snoc:
  "pairwiseDisjoint (bl @ [sel]) \<longleftrightarrow>
     pairwiseDisjoint bl \<and> (\<forall>b\<in>set bl. set b \<inter> set sel = {})"
  by (induction bl) auto

lemma pairwiseDisjoint_at_most_one:
  "pairwiseDisjoint bl \<Longrightarrow> length (filter (\<lambda>b. pid \<in> set b) bl) \<le> 1"
proof (induction bl)
  case Nil
  then show ?case by simp
next
  case (Cons b bl)
  show ?case
  proof (cases "pid \<in> set b")
    case True
    with Cons.prems have "\<forall>y\<in>set bl. pid \<notin> set y"
      by auto
    then have "filter (\<lambda>b. pid \<in> set b) bl = []"
      by (simp add: filter_empty_conv)
    with True show ?thesis by simp
  next
    case False
    with Cons show ?thesis by simp
  qed
qed

lemma coreInv_empty: "coreInv vid [] []"
  by (simp add: coreInv_def split: option.splits)

lemma coreInv_addPhone:
  assumes "coreInv (Some v) ps bl"
  shows "coreInv (Some v) (ps @ [(generatePhoneID v (length ps + 1), False)]) bl"
proof -
  let ?new = "generatePhoneID v (length ps + 1)"
  from assms have ids: "map fst ps = map (generatePhoneID v) [1..<Suc (length ps)]"
    and sub: "\<forall>b\<in>set bl. set b \<subseteq> fst ` set ps"
    and dis: "pairwiseDisjoint bl"
    and flg: "\<forall>x\<in>set ps. snd x = (length (filter (\<lambda>b. fst x \<in> set b) bl) = 1)"
    by (simp_all add: coreInv_def)
  have "fst ` set ps = generatePhoneID v ` {1..<Suc (length ps)}"
    using ids by (metis image_set set_upt)
  then have fresh: "?new \<notin> fst ` set ps"
    by (auto dest: generatePhoneID_inj)
  with sub have "\<forall>b\<in>set bl. ?new \<notin> set b"
    by auto
  then have none: "filter (\<lambda>b. ?new \<in> set b) bl = []"
    by (simp add: filter_empty_conv)
  show ?thesis
    using ids sub dis flg none by (auto simp: coreInv_def)
qed

lemma coreInv_createBill:
  assumes "coreInv (Some v) ps bl"
    and "set sel \<subseteq> fst ` set ps"
    and "\<forall>x\<in>set ps. fst x \<in> set sel \<longrightarrow> \<not> snd x"
  shows "coreInv (Some v) (map (\<lambda>x. if fst x \<in> set sel then (fst x, True) else x) ps) (bl @ [sel])"
proof -
  let ?ps' = "map (\<lambda>x. if fst x \<in> set sel then (fst x, True) else x) ps"
  from assms(1) have ids: "map fst ps = map (generatePhoneID v) [1..<Suc (length ps)]"
    and sub: "\<forall>b\<in>set bl. set b \<subseteq> fst ` set ps"
    and dis: "pairwiseDisjoint bl"
    and flg: "\<forall>x\<in>set ps. snd x = (length (filter (\<lambda>b. fst x \<in> set b) bl) = 1)"
    by (simp_all add: coreInv_def)
  have fst': "map fst ?ps' = map fst ps"
    by (induction ps) auto
  then have img: "fst ` set ?ps' = fst ` set ps"
    by (metis image_set)
  have zero: "filter (\<lambda>b. pid \<in> set b) bl = []" if "pid \<in> set sel" for pid
  proof -
    from that assms(2) obtain x where x: "x \<in> set ps" "fst x = pid"
      by auto
    with assms(3) that have "\<not> snd x"
      by auto
    with flg x have "length (filter (\<lambda>b. pid \<in> set b) bl) \<noteq> 1"
      by auto
    with pairwiseDisjoint_at_most_one [OF dis, of pid]
    have "length (filter (\<lambda>b. pid \<in> set b) bl) = 0"
      by arith
    then show ?thesis by simp
  qed
  have disj: "\<forall>b\<in>set bl. set b \<inter> set sel = {}"
  proof (intro ballI)
    fix b
    assume b: "b \<in> set bl"
    show "set b \<inter> set sel = {}"
    proof (rule ccontr)
      assume "set b \<inter> set sel \<noteq> {}"
      then obtain pid where "pid \<in> set b" "pid \<in> set sel"
        by auto
      with zero [of pid] b show False
        by (auto simp: filter_empty_conv)
    qed
  qed
  have a1: "map fst ?ps' = map (generatePhoneID v) [1..<Suc (length ?ps')]"
    unfolding fst' using ids by simp
  have a2: "\<forall>b\<in>set (bl @ [sel]). set b \<subseteq> fst ` set ?ps'"
    unfolding img using sub assms(2) by simp
  have a3: "pairwiseDisjoint (bl @ [sel])"
    using dis disj by (simp add: pairwiseDisjoint_snoc)
  have a4: "\<forall>x\<in>set ?ps'. snd x = (length (filter (\<lambda>b. fst x \<in> set b) (bl @ [sel])) = 1)"
  proof (intro ballI)
    fix x
    assume "x \<in> set ?ps'"
    then have "x \<in> (\<lambda>y. if fst y \<in> set sel then (fst y, True) else y) ` set ps"
      by simp
    then obtain y where y: "y \<in> set ps"
      and x: "x = (if fst y \<in> set sel then (fst y, True) else y)"
      by blast
    show "snd x = (length (filter (\<lambda>b. fst x \<in> set b) (bl @ [sel])) = 1)"
    proof (cases "fst y \<in> set sel")
      case True
      with x zero [OF True] show ?thesis by simp
    next
      case False
      with x y flg show ?thesis by simp
    qed
  qed
  from a1 a2 a3 a4 show ?thesis
    unfolding coreInv_def by simp
qed

lemma map_update_same:
  "f y = f (xs ! j) \<Longrightarrow> map f (xs[j := y]) = map f xs"
  by (induction xs arbitrary: j) (auto simp: nth_Cons split: nat.splits)

lemma recordInv_new:
  "phones r = [] \<Longrightarrow> bills r = [] \<Longrightarrow> recordInv r"
  by (simp add: recordInv_def coreInv_empty)

lemma recordInv_addPhone:
  assumes "recordInv r" and "vendor_id r = Some v"
  shows "recordInv (r\<lparr>phones := phones r @
            [newPhone (generatePhoneID v (length (phones r) + 1)) formData]\<rparr>)"
  using coreInv_addPhone [of v "map (\<lambda>p. (phone_id p, billed p)) (phones r)"
      "map phone_ids (bills r)"] assms
  by (simp add: recordInv_def newPhone_def)

lemma recordInv_setStatus:
  assumes "recordInv r"
  shows "recordInv (r\<lparr>phones := (phones r)[j := setStatus newStatus (phones r ! j)]\<rparr>)"
proof -
  have "map (\<lambda>p. (phone_id p, billed p)) ((phones r)[j := setStatus newStatus (phones r ! j)])
      = map (\<lambda>p. (phone_id p, billed p)) (phones r)"
    by (rule map_update_same) (simp add: setStatus_def)
  with assms show ?thesis
    by (simp add: recordInv_def)
qed

lemma recordInv_updateBill:
  assumes "recordInv r"
  shows "recordInv (updateBill k its sub tx grand now r)"
proof -
  have "map phone_ids ((bills r)[k := (bills r ! k)\<lparr>items := its, subtotal := sub, tax := tx,
           grand_total := grand, updated_at := Some now\<rparr>]) = map phone_ids (bills r)"
    by (rule map_update_same) simp
  with assms show ?thesis
    by (simp add: recordInv_def updateBill_def)
qed

lemma recordInv_createBill:
  assumes "recordInv r" and "vendor_id r = Some v" and "unbilledSelection r (phone_ids newBill)"
  shows "recordInv (createBill billId newBill r)"
proof -
  let ?sel = "phone_ids newBill"
  let ?ps = "map (\<lambda>p. (phone_id p, billed p)) (phones r)"
  have "map ((\<lambda>p. (phone_id p, billed p)) \<circ> markBilled ?sel billId) (phones r)
      = map ((\<lambda>x. if fst x \<in> set ?sel then (fst x, True) else x)
          \<circ> (\<lambda>p. (phone_id p, billed p))) (phones r)"
    by (rule map_cong [OF refl]) (simp add: markBilled_def)
  then have m: "map (\<lambda>p. (phone_id p, billed p)) (map (markBilled ?sel billId) (phones r))
      = map (\<lambda>x. if fst x \<in> set ?sel then (fst x, True) else x) ?ps"
    by simp
  from assms(3) have s1: "set ?sel \<subseteq> fst ` set ?ps"
    by (force simp: unbilledSelection_def)
  from assms(3) have s2: "\<forall>x\<in>set ?ps. fst x \<in> set ?sel \<longrightarrow> \<not> snd x"
    by (auto simp: unbilledSelection_def)
  from assms(1,2) have "coreInv (Some v) ?ps (map phone_ids (bills r))"
    by (simp add: recordInv_def)
  from coreInv_createBill [OF this s1 s2]
  have "coreInv (Some v)
      (map (\<lambda>p. (phone_id p, billed p)) (map (markBilled ?sel billId) (phones r)))
      (map phone_ids (bills r) @ [?sel])"
    unfolding m .
  with assms(2) show ?thesis
    by (simp add: recordInv_def createBill_def)
qed

lemma recordInv_sample:
  "recordInv sampleIndividualRecord" "recordInv sampleVendorRecord"
  by code_simp+

lemma recordInv_exactlyOnceBilled:
  assumes "recordInv r"
  shows "exactlyOnceBilled r"
proof -
  have "length (billsContaining r pid) = length (filter (\<lambda>b. pid \<in> set b) (map phone_ids (bills r)))"
    for pid
    by (simp add: billsContaining_def filter_map comp_def)
  with assms show ?thesis
    by (auto simp: recordInv_def coreInv_def exactlyOnceBilled_def)
qed

lemma update_keeps:
  assumes "\<forall>r\<in>set rs. P r" and "P r'"
  shows "\<forall>r\<in>set (rs[i := r']). P r"
  using assms set_update_subset_insert [of rs i r'] by auto

lemma perform_keeps_recordInv:
  assumes "\<forall>r\<in>set (cachedRecords s). recordInv r" and "offered op s"
  shows "\<forall>r\<in>set (cachedRecords (perform op s)). recordInv r"
proof (cases op)
  case InitializeSampleData
  with assms(1) show ?thesis
    by (simp add: initializeSampleData_def saveRecords_def recordInv_sample)
next
  case CreateService
  with assms(1) show ?thesis
    by (simp add: createService_def saveRecords_def Let_def recordInv_new)
next
  case CreateLaptop
  with assms(1) show ?thesis
    by (simp add: createLaptop_def saveRecords_def Let_def recordInv_new)
next
  case (CreateVendor newVendorName)
  with assms(1) show ?thesis
    by (simp add: createVendor_def saveRecords_def Let_def recordInv_new)
next
  case (AddPhone vendorId formData)
  show ?thesis
  proof (cases "findIndex (\<lambda>r. vendor_id r = Some vendorId) (cachedRecords s)")
    case None
    with AddPhone assms(1) show ?thesis
      by (simp add: addPhone_def)
  next
    case (Some i)
    let ?r = "cachedRecords s ! i"
    from findIndex_Some [OF Some] have i: "i < length (cachedRecords s)"
      and v: "vendor_id ?r = Some vendorId"
      by simp_all
    from assms(1) i have "recordInv ?r"
      by simp
    from recordInv_addPhone [OF this v, of formData] assms(1)
    have "\<forall>r\<in>set ((cachedRecords s)[i := ?r\<lparr>phones := phones ?r @
            [newPhone (generatePhoneID vendorId (length (phones ?r) + 1)) formData]\<rparr>]). recordInv r"
      by (intro update_keeps)
    with AddPhone Some show ?thesis
      by (simp add: addPhone_def Let_def saveRecords_def)
  qed
next
  case (UpdatePhoneStatus phoneId newStatus)
  show ?thesis
  proof (cases "updateStatusIn phoneId newStatus (cachedRecords s)")
    case None
    with UpdatePhoneStatus assms(1) show ?thesis
      by (simp add: updatePhoneStatus_def)
  next
    case (Some rs')
    let ?rs = "cachedRecords s"
    from updateStatusIn_shape [OF Some] obtain i j where i: "i < length ?rs"
      and rs': "rs' = ?rs[i := (?rs ! i)\<lparr>phones :=
              (phones (?rs ! i))[j := setStatus newStatus (phones (?rs ! i) ! j)]\<rparr>]"
      by blast
    from assms(1) i have "recordInv (?rs ! i)"
      by simp
    from recordInv_setStatus [OF this, of j newStatus] assms(1)
    have "\<forall>r\<in>set rs'. recordInv r"
      unfolding rs' by (intro update_keeps)
    with UpdatePhoneStatus Some show ?thesis
      by (simp add: updatePhoneStatus_def saveRecords_def)
  qed
next
  case (EditVendorBill vendorId billId)
  with assms(1) show ?thesis
    by (simp add: editVendorBill_def split: option.splits)
next
  case (SaveVendorBill vendorId form todayDate now)
  show ?thesis
  proof (cases "findIndex (\<lambda>r. vendor_id r = Some vendorId) (cachedRecords s)")
    case None
    with SaveVendorBill assms(1) show ?thesis
      by (simp add: saveVendorBill_def)
  next
    case (Some i)
    let ?r = "cachedRecords s ! i"
    let ?sel = "selectionOf form ?r"
    from findIndex_Some [OF Some] have i: "i < length (cachedRecords s)"
      and v: "vendor_id ?r = Some vendorId"
      by simp_all
    from assms(1) i have inv: "recordInv ?r"
      by simp
    show ?thesis
    proof (cases "?sel = []")
      case True
      with SaveVendorBill Some assms(1) show ?thesis
        by (simp add: saveVendorBill_def selectionOf_def Let_def)
    next
      case False
      note found = saveVendorBill_found [OF Some refl refl, of form todayDate now]
      from False have ne: "(case selectedPhoneIds form of
                  Some ids \<Rightarrow> ids
                | None \<Rightarrow> map phone_id (filter (\<lambda>p. \<not> billed p) (phones ?r))) \<noteq> []"
        by (simp add: selectionOf_def)
      show ?thesis
      proof (cases "case editingBill s of
              None \<Rightarrow> None
            | Some billId \<Rightarrow>
                map_option (Pair billId) (findIndex (\<lambda>b. vb_bill_id b = billId) (bills ?r))")
        case None
        let ?id = "generateBillID vendorId (length (bills ?r) + 1)"
        let ?nb = "newBillOf ?id todayDate ?sel (map collectItem (item_rows form))
            (subtotal_text form) (taxAmount_text form) (grandTotal_text form) now"
        from found [OF ne] None
        have res: "saveVendorBill vendorId form todayDate now s =
            (Inr (BillCreated ?id),
             (saveRecords ((cachedRecords s)[i := createBill ?id ?nb ?r]) s)
               \<lparr>selectedPhonesForBilling := None\<rparr>)"
          by (simp add: selectionOf_def)
        with assms(2) SaveVendorBill Some have "unbilledSelection ?r ?sel"
          by simp
        then have "unbilledSelection ?r (phone_ids ?nb)"
          by (simp add: newBillOf_def)
        from recordInv_createBill [OF inv v this, of ?id] assms(1)
        have "\<forall>r\<in>set ((cachedRecords s)[i := createBill ?id ?nb ?r]). recordInv r"
          by (intro update_keeps)
        with SaveVendorBill res show ?thesis
          by (simp add: saveRecords_def)
      next
        case (Some a)
        obtain billId k where a: "a = (billId, k)"
          by (cases a)
        let ?ub = "updateBill k (map collectItem (item_rows form)) (subtotal_text form)
            (taxAmount_text form) (grandTotal_text form) now ?r"
        from found [OF ne] Some a
        have res: "saveVendorBill vendorId form todayDate now s =
            (Inr (BillUpdated billId),
             (saveRecords ((cachedRecords s)[i := ?ub]) s)\<lparr>selectedPhonesForBilling := None\<rparr>)"
          by simp
        from recordInv_updateBill [OF inv] assms(1)
        have "\<forall>r\<in>set ((cachedRecords s)[i := ?ub]). recordInv r"
          by (intro update_keeps)
        with SaveVendorBill res show ?thesis
          by (simp add: saveRecords_def)
      qed
    qed
  qed
qed

lemma run_keeps_recordInv:
  "\<forall>r\<in>set (cachedRecords s). recordInv r \<Longrightarrow> offeredRun ops s
     \<Longrightarrow> \<forall>r\<in>set (cachedRecords (run ops s)). recordInv r"
proof (induction ops arbitrary: s)
  case Nil
  then show ?case by simp
next
  case (Cons op ops)
  from Cons.prems have "offered op s" and rest: "offeredRun ops (perform op s)"
    by simp_all
  from perform_keeps_recordInv [OF Cons.prems(1) this(1)] rest
  show ?case
    by (simp add: Cons.IH)
qed

text \<open>
  C1, as stated, fails: \<open>saveVendorBill\<close> does not check whether a phone it is given is
  billed. After a vendor is created and given one phone, saving a bill for that phone
  twice leaves two bills that both list it.
\<close>

theorem saveVendorBill_twice_bills_phone_twice:
  "map phone_ids (bills (cachedRecords (run
      [CreateVendor ''ABC Mobile Shop'',
       AddPhone ''VND001'' \<lparr>phoneDate = ''2025-10-28'', phoneBrand = ''Nokia'',
         phoneModel = ''G20'', phoneIssue = ''Speaker'', phoneReceivedBy = ''Aryan''\<rparr>,
       SaveVendorBill ''VND001'' (sampleForm (Some [''VND001-P001'']))
         ''2025-11-03'' ''2025-11-03T10:00:00.000Z'',
       SaveVendorBill ''VND001'' (sampleForm (Some [''VND001-P001'']))
         ''2025-11-03'' ''2025-11-03T10:05:00.000Z'']
      emptyState) ! 0))
     = [[''VND001-P001''], [''VND001-P001'']]
   \<and> \<not> exactlyOnceBilled (cachedRecords (run
      [CreateVendor ''ABC Mobile Shop'',
       AddPhone ''VND001'' \<lparr>phoneDate = ''2025-10-28'', phoneBrand = ''Nokia'',
         phoneModel = ''G20'', phoneIssue = ''Speaker'', phoneReceivedBy = ''Aryan''\<rparr>,
       SaveVendorBill ''VND001'' (sampleForm (Some [''VND001-P001'']))
         ''2025-11-03'' ''2025-11-03T10:00:00.000Z'',
       SaveVendorBill ''VND001'' (sampleForm (Some [''VND001-P001'']))
         ''2025-11-03'' ''2025-11-03T10:05:00.000Z'']
      emptyState) ! 0)"
  by code_simp

text \<open>
  C1, amended. Start from an empty store and run any sequence of the operations that
  change it - loading the sample data, creating service, laptop and vendor records,
  adding phones, updating a status, opening a bill for edit, saving a vendor bill as
  new or as an edit - in which every save that creates a bill has a selection that
  names phones of the vendor only, none of them billed (what the screens offer).
  Then in every record the phone lists of the bills are pairwise disjoint, and a phone
  is billed exactly when one bill lists it.
\<close>

theorem offered_runs_bill_exactly_once:
  assumes "cachedRecords s0 = []" and "offeredRun ops s0"
  shows "\<forall>r\<in>set (cachedRecords (run ops s0)). exactlyOnceBilled r"
proof -
  from assms(1) have "\<forall>r\<in>set (cachedRecords s0). recordInv r"
    by simp
  from run_keeps_recordInv [OF this assms(2)] show ?thesis
    by (simp add: recordInv_exactlyOnceBilled)
qed

theorem offered_runs_bill_exactly_once_witness:
  "cachedRecords emptyState = []
   \<and> offeredRun
       [InitializeSampleData,
        AddPhone ''VND001'' \<lparr>phoneDate = ''2025-10-28'', phoneBrand = ''Nokia'',
          phoneModel = ''G20'', phoneIssue = ''Speaker'', phoneReceivedBy = ''Aryan''\<rparr>,
        UpdatePhoneStatus ''VND001-P006'' ''Ready'',
        SaveVendorBill ''VND001'' (sampleForm (Some [''VND001-P003'', ''VND001-P006'']))
          ''2025-11-03'' ''2025-11-03T10:00:00.000Z'',
        SaveVendorBill ''VND001'' (sampleForm None)
          ''2025-11-03'' ''2025-11-03T10:05:00.000Z'']
       emptyState
   \<and> map phone_ids (bills (cachedRecords (run
       [InitializeSampleData,
        AddPhone ''VND001'' \<lparr>phoneDate = ''2025-10-28'', phoneBrand = ''Nokia'',
          phoneModel = ''G20'', phoneIssue = ''Speaker'', phoneReceivedBy = ''Aryan''\<rparr>,
        UpdatePhoneStatus ''VND001-P006'' ''Ready'',
        SaveVendorBill ''VND001'' (sampleForm (Some [''VND001-P003'', ''VND001-P006'']))
          ''2025-11-03'' ''2025-11-03T10:00:00.000Z'',
        SaveVendorBill ''VND001'' (sampleForm None)
          ''2025-11-03'' ''2025-11-03T10:05:00.000Z'']
       emptyState) ! 1))
      = [[''VND001-P001'', ''VND001-P002''], [''VND001-P003'', ''VND001-P006''],
         [''VND001-P004'', ''VND001-P005'']]
   \<and> exactlyOnceBilled (cachedRecords (run
       [InitializeSampleData,
        AddPhone ''VND001'' \<lparr>phoneDate = ''2025-10-28'', phoneBrand = ''Nokia'',
          phoneModel = ''G20'', phoneIssue = ''Speaker'', phoneReceivedBy = ''Aryan''\<rparr>,
        UpdatePhoneStatus ''VND001-P006'' ''Ready'',
        SaveVendorBill ''VND001'' (sampleForm (Some [''VND001-P003'', ''VND001-P006'']))
          ''2025-11-03'' ''2025-11-03T10:00:00.000Z'',
        SaveVendorBill ''VND001'' (sampleForm None)
          ''2025-11-03'' ''2025-11-03T10:05:00.000Z'']
       emptyState) ! 1)"
proof -
  let ?ops = "[InitializeSampleData,
        AddPhone ''VND001'' \<lparr>phoneDate = ''2025-10-28'', phoneBrand = ''Nokia'',
          phoneModel = ''G20'', phoneIssue = ''Speaker'', phoneReceivedBy = ''Aryan''\<rparr>,
        UpdatePhoneStatus ''VND001-P006'' ''Ready'',
        SaveVendorBill ''VND001'' (sampleForm (Some [''VND001-P003'', ''VND001-P006'']))
          ''2025-11-03'' ''2025-11-03T10:00:00.000Z'',
        SaveVendorBill ''VND001'' (sampleForm None)
          ''2025-11-03'' ''2025-11-03T10:05:00.000Z'']"
  have h1: "cachedRecords emptyState = []"
    by (simp add: emptyState_def)
  have h2: "offeredRun ?ops emptyState"
    by code_simp
  have b: "map phone_ids (bills (cachedRecords (run ?ops emptyState) ! 1))
      = [[''VND001-P001'', ''VND001-P002''], [''VND001-P003'', ''VND001-P006''],
         [''VND001-P004'', ''VND001-P005'']]"
    by code_simp
  have l: "1 < length (cachedRecords (run ?ops emptyState))"
    by code_simp
  then have m: "cachedRecords (run ?ops emptyState) ! 1 \<in> set (cachedRecords (run ?ops emptyState))"
    by (rule nth_mem)
  have e: "exactlyOnceBilled (cachedRecords (run ?ops emptyState) ! 1)"
    using offered_runs_bill_exactly_once [OF h1 h2, THEN bspec, OF m] .
  from h1 h2 b e show ?thesis by (intro conjI)
qed

end
